theory Spec2Isabelle
  imports Complex_Main "HOL-Library.Sublist"
begin

section \<open>Vectors and easing\<close>

text \<open>
  JavaScript numbers are IEEE doubles. They are modelled as real numbers, and the
  rounding of a double operation is written out where a property depends on it: in the
  linear interpolation \<open>lerpVectors\<close>, whose last step is claimed to land on its target.
  Elsewhere arithmetic is exact. A \<open>THREE.Vector3\<close> is a triple of coordinates; the
  vector operations the repository calls are those of the rendering library, as the
  library documents them.
\<close>

text \<open>
  Rounding to the nearest double, ties to even: a nonzero \<open>x\<close> with
  \<open>2\<^sup>e \<le> |x| < 2\<^sup>e\<^sup>+\<^sup>1\<close> is rounded to a multiple of \<open>2\<^sup>e\<^sup>-\<^sup>5\<^sup>2\<close>. The exponent
  range is taken unbounded (no overflow, no subnormal numbers).
\<close>

definition roundHalfEven :: "real \<Rightarrow> int" where
  "roundHalfEven y =
     (let f = \<lfloor>y\<rfloor>; r = y - of_int f
      in if r < 1 / 2 then f else if 1 / 2 < r then f + 1 else if even f then f else f + 1)"

definition roundDouble :: "real \<Rightarrow> real" where
  "roundDouble x =
     (if x = 0 then 0
      else (let u = 2 powr of_int (\<lfloor>log 2 \<bar>x\<bar>\<rfloor> - 52)
            in of_int (roundHalfEven (x / u)) * u))"

datatype Vector3 = Vector3 (vx: real) (vy: real) (vz: real)

definition add :: "Vector3 \<Rightarrow> Vector3 \<Rightarrow> Vector3" where
  "add a b = Vector3 (vx a + vx b) (vy a + vy b) (vz a + vz b)"

definition multiplyScalar :: "Vector3 \<Rightarrow> real \<Rightarrow> Vector3" where
  "multiplyScalar a k = Vector3 (vx a * k) (vy a * k) (vz a * k)"

definition distanceTo :: "Vector3 \<Rightarrow> Vector3 \<Rightarrow> real" where
  "distanceTo a b =
     (let dx = vx a - vx b; dy = vy a - vy b; dz = vz a - vz b
      in sqrt (dx * dx + dy * dy + dz * dz))"

text \<open>
  \<open>this.x = v1.x + (v2.x - v1.x) * alpha\<close>, each of the three operations rounded.
\<close>

definition lerp :: "real \<Rightarrow> real \<Rightarrow> real \<Rightarrow> real" where
  "lerp a b alpha = roundDouble (a + roundDouble (roundDouble (b - a) * alpha))"

definition lerpVectors :: "Vector3 \<Rightarrow> Vector3 \<Rightarrow> real \<Rightarrow> Vector3" where
  "lerpVectors v1 v2 alpha =
     Vector3 (lerp (vx v1) (vx v2) alpha) (lerp (vy v1) (vy v2) alpha) (lerp (vz v1) (vz v2) alpha)"

text \<open>
  The direction in which a camera at \<open>eye\<close> faces after \<open>lookAt p\<close>: the unit vector
  towards \<open>p\<close>, and the library's default axis when the two points coincide.
\<close>

definition directionTowards :: "Vector3 \<Rightarrow> Vector3 \<Rightarrow> Vector3" where
  "directionTowards eye p =
     (if p = eye then Vector3 0 0 (- 1)
      else multiplyScalar (add p (multiplyScalar eye (- 1))) (1 / distanceTo p eye))"

text \<open>\<open>Math.min(elapsed / duration, 1)\<close> and \<open>0.5 - 0.5 * Math.cos(progress * Math.PI)\<close>.\<close>

definition progressOf :: "real \<Rightarrow> real \<Rightarrow> real" where
  "progressOf elapsed duration = min (elapsed / duration) 1"

definition easeProgressOf :: "real \<Rightarrow> real" where
  "easeProgressOf progress = 0.5 - 0.5 * cos (progress * pi)"

section \<open>Application state\<close>

text \<open>A tween target object such as \<open>{ z: leftTargetZ }\<close>: absent keys are \<open>None\<close>.\<close>

record TweenTarget =
  target_x :: "real option"
  target_y :: "real option"
  target_z :: "real option"

text \<open>A camera preset (its display name is Chinese text and is left out).\<close>

record Preset =
  preset_position :: Vector3
  preset_target :: Vector3

text \<open>\<open>SceneManager.bridge\<close>: the positions of the two segment meshes and the flag.\<close>

record Bridge =
  left :: Vector3
  right :: Vector3
  isAligned :: bool

datatype NarrativeState = searching | aligning | connected | reunited

datatype message =
    UnknownPreset string
  | AlignFirst
  | ReunionComplete

datatype segment = LeftSegment | RightSegment

datatype completion = LogReunion

text \<open>
  A pending \<open>requestAnimationFrame\<close> callback is a closure of the source; the datatype
  lists the four closures with the variables each one captures.
  \<^item> \<open>CameraAnimate startPosition startTarget targetPosition targetLookAt startTime\<close>:
    the \<open>animate\<close> of \<open>CameraManager.animateToPosition\<close>;
  \<^item> \<open>SegmentAnimate segment start target startTime\<close>:
    the \<open>animate\<close> of \<open>SceneManager.animateBridgeSegment\<close>;
  \<^item> \<open>CharacterAnimate character start target onComplete startTime\<close>:
    the \<open>animate\<close> of \<open>SceneManager.animateCharacter\<close>, the character being the
    mesh object (an address in the mesh store);
  \<^item> \<open>AppAnimate\<close>: \<open>() => this.animate()\<close> of the render loop.
\<close>

datatype callback =
    CameraAnimate Vector3 Vector3 Vector3 Vector3 real
  | SegmentAnimate segment Vector3 TweenTarget real
  | CharacterAnimate nat Vector3 TweenTarget "completion option" real
  | AppAnimate

text \<open>
  The state of the running page, one field per mutable property the managers hold:
  the camera (\<open>camera_lookAt\<close> records the last point given to \<open>camera.lookAt\<close>),
  \<open>CameraManager.currentPreset\<close> and \<open>isAnimating\<close>, \<open>SceneManager.bridge\<close>,
  \<open>mother\<close> and \<open>child\<close> (mesh objects, by address) with the position of every mesh,
  \<open>UIManager.currentState\<close>, the console, and the queue of frame callbacks.
\<close>

record App =
  camera_position :: Vector3
  camera_direction :: Vector3
  camera_lookAt :: Vector3
  currentPreset :: "string option"
  isAnimating :: bool
  bridge :: "Bridge option"
  mother :: "nat option"
  child :: "nat option"
  meshPosition :: "nat \<Rightarrow> Vector3"
  currentState :: NarrativeState
  console :: "message list"
  frameCallbacks :: "callback list"

definition requestAnimationFrame :: "callback \<Rightarrow> App \<Rightarrow> App" where
  "requestAnimationFrame cb s = s\<lparr>frameCallbacks := frameCallbacks s @ [cb]\<rparr>"

definition console_log :: "message \<Rightarrow> App \<Rightarrow> App" where
  "console_log m s = s\<lparr>console := console s @ [m]\<rparr>"

section \<open>CameraManager\<close>

definition preset_mother :: Preset where
  "preset_mother = \<lparr>preset_position = Vector3 (- 15) 8 12, preset_target = Vector3 (- 12) 1 0\<rparr>"

definition preset_child :: Preset where
  "preset_child = \<lparr>preset_position = Vector3 15 6 10, preset_target = Vector3 12 1 0\<rparr>"

definition preset_emotional :: Preset where
  "preset_emotional = \<lparr>preset_position = Vector3 0 5 20, preset_target = Vector3 0 0.5 0\<rparr>"

text \<open>
  The object \<open>this.presets\<close>, read as \<open>this.presets[presetName]\<close>. Only its own three
  keys are modelled: every caller passes one of them as a literal.
\<close>

definition presets :: "string \<Rightarrow> Preset option" where
  "presets = map_of
     [(''mother'', preset_mother), (''child'', preset_child), (''emotional'', preset_emotional)]"

definition lookAt :: "Vector3 \<Rightarrow> App \<Rightarrow> App" where
  "lookAt p s =
     s\<lparr>camera_direction := directionTowards (camera_position s) p, camera_lookAt := p\<rparr>"

definition getCameraLookAt :: "App \<Rightarrow> Vector3" where
  "getCameraLookAt s = add (camera_position s) (multiplyScalar (camera_direction s) 10)"

text \<open>
  One run of the \<open>animate\<close> closure of \<open>animateToPosition\<close> when \<open>Date.now()\<close> reads
  \<open>now\<close>. The completion callback given by \<open>setPresetView\<close>, its only caller, clears
  \<open>isAnimating\<close> a second time.
\<close>

definition cameraAnimate ::
  "Vector3 \<Rightarrow> Vector3 \<Rightarrow> Vector3 \<Rightarrow> Vector3 \<Rightarrow> real \<Rightarrow> real \<Rightarrow> App \<Rightarrow> App" where
  "cameraAnimate startPosition startTarget targetPosition targetLookAt startTime now s =
     (let elapsed = now - startTime;
          progress = progressOf elapsed 2000;
          easeProgress = easeProgressOf progress;
          s1 = s\<lparr>camera_position := lerpVectors startPosition targetPosition easeProgress\<rparr>;
          currentTarget = lerpVectors startTarget targetLookAt easeProgress;
          s2 = lookAt currentTarget s1
      in if progress < 1
         then requestAnimationFrame
                (CameraAnimate startPosition startTarget targetPosition targetLookAt startTime) s2
         else (s2\<lparr>isAnimating := False\<rparr>)\<lparr>isAnimating := False\<rparr>)"

definition animateToPosition :: "Vector3 \<Rightarrow> Vector3 \<Rightarrow> real \<Rightarrow> App \<Rightarrow> App" where
  "animateToPosition targetPosition targetLookAt now s =
     (let startPosition = camera_position s;
          startTarget = getCameraLookAt s;
          startTime = now
      in cameraAnimate startPosition startTarget targetPosition targetLookAt startTime now s)"

definition setPresetView :: "string \<Rightarrow> real \<Rightarrow> App \<Rightarrow> App" where
  "setPresetView presetName now s =
     (if isAnimating s then s
      else case presets presetName of
             None \<Rightarrow> console_log (UnknownPreset presetName) s
           | Some preset \<Rightarrow>
               animateToPosition (preset_position preset) (preset_target preset) now
                 (s\<lparr>currentPreset := Some presetName, isAnimating := True\<rparr>))"

text \<open>The default parameter \<open>threshold = 2.0\<close> applies when the argument is omitted.\<close>

definition isNearEmotionalView :: "real option \<Rightarrow> App \<Rightarrow> bool" where
  "isNearEmotionalView threshold_arg s =
     (let threshold = (case threshold_arg of None \<Rightarrow> 2 | Some t \<Rightarrow> t);
          emotionalPos = preset_position preset_emotional;
          currentPos = camera_position s;
          distance = distanceTo currentPos emotionalPos
      in distance < threshold)"

section \<open>SceneManager\<close>

definition createBridge :: "App \<Rightarrow> App" where
  "createBridge s =
     s\<lparr>bridge := Some \<lparr>left = Vector3 (- 6) 0.5 0, right = Vector3 6 0.5 0, isAligned = False\<rparr>\<rparr>"

text \<open>
  \<open>setMother(mesh)\<close> and \<open>setChild(mesh)\<close>, for a mesh object that is not null (the
  callers pass a loaded model or a placeholder); membership in the rendered scene is not
  modelled.
\<close>

definition setMother :: "nat \<Rightarrow> App \<Rightarrow> App" where
  "setMother mesh s =
     s\<lparr>mother := Some mesh, meshPosition := (meshPosition s)(mesh := Vector3 (- 12) 1 0)\<rparr>"

definition setChild :: "nat \<Rightarrow> App \<Rightarrow> App" where
  "setChild mesh s =
     s\<lparr>child := Some mesh, meshPosition := (meshPosition s)(mesh := Vector3 12 1 0)\<rparr>"

text \<open>
  The three guarded assignments shared by both tween closures:
  \<open>if (target.x !== undefined) position.x = start.x + (target.x - start.x) * easeProgress\<close>,
  and the same for \<open>y\<close> and \<open>z\<close>.
\<close>

definition tweenPosition :: "Vector3 \<Rightarrow> TweenTarget \<Rightarrow> real \<Rightarrow> Vector3 \<Rightarrow> Vector3" where
  "tweenPosition start tgt easeProgress p =
     Vector3
       (case target_x tgt of None \<Rightarrow> vx p | Some x \<Rightarrow> vx start + (x - vx start) * easeProgress)
       (case target_y tgt of None \<Rightarrow> vy p | Some y \<Rightarrow> vy start + (y - vy start) * easeProgress)
       (case target_z tgt of None \<Rightarrow> vz p | Some z \<Rightarrow> vz start + (z - vz start) * easeProgress)"

definition segmentPosition :: "segment \<Rightarrow> Bridge \<Rightarrow> Vector3" where
  "segmentPosition seg b = (case seg of LeftSegment \<Rightarrow> left b | RightSegment \<Rightarrow> right b)"

definition setSegmentPosition :: "segment \<Rightarrow> Vector3 \<Rightarrow> Bridge \<Rightarrow> Bridge" where
  "setSegmentPosition seg p b =
     (case seg of LeftSegment \<Rightarrow> b\<lparr>left := p\<rparr> | RightSegment \<Rightarrow> b\<lparr>right := p\<rparr>)"

text \<open>One run of the \<open>animate\<close> closure of \<open>animateCharacter\<close> (2 seconds).\<close>

definition characterAnimate ::
  "nat \<Rightarrow> Vector3 \<Rightarrow> TweenTarget \<Rightarrow> completion option \<Rightarrow> real \<Rightarrow> real \<Rightarrow> App \<Rightarrow> App" where
  "characterAnimate character start tgt onComplete startTime now s =
     (let elapsed = now - startTime;
          progress = progressOf elapsed 2000;
          easeProgress = easeProgressOf progress;
          s1 = s\<lparr>meshPosition := (meshPosition s)
                  (character := tweenPosition start tgt easeProgress (meshPosition s character))\<rparr>
      in if progress < 1
         then requestAnimationFrame (CharacterAnimate character start tgt onComplete startTime) s1
         else (case onComplete of None \<Rightarrow> s1 | Some LogReunion \<Rightarrow> console_log ReunionComplete s1))"

definition animateCharacter ::
  "nat \<Rightarrow> TweenTarget \<Rightarrow> completion option \<Rightarrow> real \<Rightarrow> App \<Rightarrow> App" where
  "animateCharacter character tgt onComplete now s =
     (let start = meshPosition s character;
          startTime = now
      in characterAnimate character start tgt onComplete startTime now s)"

text \<open>
  One run of the \<open>animate\<close> closure of \<open>animateBridgeSegment\<close> (1 second). A segment is
  one of the two meshes held by \<open>this.bridge\<close>, so its position is read and written
  through the bridge record.
\<close>

definition segmentAnimate ::
  "segment \<Rightarrow> Vector3 \<Rightarrow> TweenTarget \<Rightarrow> real \<Rightarrow> real \<Rightarrow> App \<Rightarrow> App" where
  "segmentAnimate seg start tgt startTime now s =
     (let elapsed = now - startTime;
          progress = progressOf elapsed 1000;
          easeProgress = easeProgressOf progress;
          s1 = s\<lparr>bridge := map_option
                  (\<lambda>b. setSegmentPosition seg
                         (tweenPosition start tgt easeProgress (segmentPosition seg b)) b)
                  (bridge s)\<rparr>
      in if progress < 1
         then requestAnimationFrame (SegmentAnimate seg start tgt startTime) s1
         else s1)"

definition animateBridgeSegment :: "segment \<Rightarrow> TweenTarget \<Rightarrow> real \<Rightarrow> App \<Rightarrow> App" where
  "animateBridgeSegment seg tgt now s =
     (case bridge s of
        None \<Rightarrow> s
      | Some b \<Rightarrow>
          (let start = segmentPosition seg b;
               startTime = now
           in segmentAnimate seg start tgt startTime now s))"

definition triggerReunion :: "real \<Rightarrow> App \<Rightarrow> App" where
  "triggerReunion now s =
     (case (mother s, child s) of
        (Some m, Some c) \<Rightarrow>
          (let motherTargetX = - 2;
               s1 = animateCharacter m
                      \<lparr>target_x = Some motherTargetX, target_y = None, target_z = None\<rparr>
                      (Some LogReunion) now s;
               childTargetX = 2
           in animateCharacter c
                \<lparr>target_x = Some childTargetX, target_y = None, target_z = None\<rparr> None now s1)
      | _ \<Rightarrow> s)"

definition triggerBridgeMovement :: "real \<Rightarrow> App \<Rightarrow> App" where
  "triggerBridgeMovement now s =
     (case bridge s of
        None \<Rightarrow> s
      | Some b \<Rightarrow>
          if isAligned b
          then (let leftTargetZ = vz (left b) + 0.3;
                    rightTargetZ = vz (right b) + 0.3;
                    s1 = animateBridgeSegment LeftSegment
                           \<lparr>target_x = None, target_y = None, target_z = Some leftTargetZ\<rparr> now s;
                    s2 = animateBridgeSegment RightSegment
                           \<lparr>target_x = None, target_y = None, target_z = Some rightTargetZ\<rparr> now s1
                in triggerReunion now s2)
          else s)"

definition setBridgeAligned :: "bool \<Rightarrow> App \<Rightarrow> App" where
  "setBridgeAligned aligned s =
     (case bridge s of None \<Rightarrow> s | Some b \<Rightarrow> s\<lparr>bridge := Some (b\<lparr>isAligned := aligned\<rparr>)\<rparr>)"

text \<open>\<open>this.sceneManager.bridge?.isAligned\<close>, read as a condition.\<close>

definition bridge_isAligned :: "App \<Rightarrow> bool" where
  "bridge_isAligned s = (case bridge s of None \<Rightarrow> False | Some b \<Rightarrow> isAligned b)"

section \<open>ControlsManager\<close>

text \<open>
  The view buttons. The enabling and disabling of the orbit controls around a transition
  belongs to the controls library and is not part of the state.
\<close>

definition switchToMotherView :: "real \<Rightarrow> App \<Rightarrow> App" where
  "switchToMotherView now s = setPresetView ''mother'' now s"

definition switchToChildView :: "real \<Rightarrow> App \<Rightarrow> App" where
  "switchToChildView now s = setPresetView ''child'' now s"

definition switchToEmotionalView :: "real \<Rightarrow> App \<Rightarrow> App" where
  "switchToEmotionalView now s = setBridgeAligned True (setPresetView ''emotional'' now s)"

definition triggerBridgeMechanism :: "real \<Rightarrow> App \<Rightarrow> App" where
  "triggerBridgeMechanism now s =
     (let isAligned = isNearEmotionalView (Some 3) s
      in if isAligned \<or> bridge_isAligned s
         then triggerBridgeMovement now s
         else console_log AlignFirst s)"

section \<open>UIManager and the render loop\<close>

record SceneState =
  bridgeAligned :: bool
  bridgeTriggered :: bool
  motherChildReunited :: bool

text \<open>
  \<open>updateStatus\<close> stores the state and shows the pair of texts that belongs to it; the
  texts are fixed per state and are not kept apart from it.
\<close>

definition updateStatus :: "NarrativeState \<Rightarrow> App \<Rightarrow> App" where
  "updateStatus state s = s\<lparr>currentState := state\<rparr>"

definition updateFromSceneState :: "SceneState \<Rightarrow> App \<Rightarrow> App" where
  "updateFromSceneState sceneState s =
     (if motherChildReunited sceneState then updateStatus reunited s
      else if bridgeTriggered sceneState then updateStatus connected s
      else if bridgeAligned sceneState then updateStatus aligning s
      else updateStatus searching s)"

text \<open>
  \<open>ControlsManager.update()\<close>: with the orbit controls of the library present, their
  \<open>update()\<close> places the camera anew and turns it towards the orbit target; where it
  puts the camera is the library's choice, so it is an argument: \<open>Some (p, q)\<close> for a
  camera left at \<open>p\<close> looking at \<open>q\<close>. Without orbit controls the update does
  nothing (\<open>None\<close>).
\<close>

definition controlsUpdate :: "(Vector3 \<times> Vector3) option \<Rightarrow> App \<Rightarrow> App" where
  "controlsUpdate orbit s =
     (case orbit of None \<Rightarrow> s | Some (p, q) \<Rightarrow> lookAt q (s\<lparr>camera_position := p\<rparr>))"

text \<open>
  The body of \<open>App.animate\<close>: it schedules itself again, updates the controls, then
  derives the scene state and hands it to the UI. The camera update is empty in the
  source; rendering does not change the state.
\<close>

definition sceneStateOf :: "App \<Rightarrow> SceneState" where
  "sceneStateOf s =
     (let motherChildReunited =
            (case (mother s, child s) of
               (Some m, Some c) \<Rightarrow>
                 (let distance = distanceTo (meshPosition s m) (meshPosition s c)
                  in distance < 5)
             | _ \<Rightarrow> False)
      in \<lparr>bridgeAligned = bridge_isAligned s,
          bridgeTriggered = False,
          motherChildReunited = motherChildReunited\<rparr>)"

definition appAnimate :: "(Vector3 \<times> Vector3) option \<Rightarrow> App \<Rightarrow> App" where
  "appAnimate orbit s =
     (let s1 = requestAnimationFrame AppAnimate s;
          s2 = controlsUpdate orbit s1
      in updateFromSceneState (sceneStateOf s2) s2)"

section \<open>Frames, events and runs\<close>

fun runCallback :: "real \<Rightarrow> (Vector3 \<times> Vector3) option \<Rightarrow> callback \<Rightarrow> App \<Rightarrow> App" where
  "runCallback now orbit
     (CameraAnimate startPosition startTarget targetPosition targetLookAt startTime) s =
     cameraAnimate startPosition startTarget targetPosition targetLookAt startTime now s"
| "runCallback now orbit (SegmentAnimate seg start tgt startTime) s =
     segmentAnimate seg start tgt startTime now s"
| "runCallback now orbit (CharacterAnimate character start tgt onComplete startTime) s =
     characterAnimate character start tgt onComplete startTime now s"
| "runCallback now orbit AppAnimate s = appAnimate orbit s"

text \<open>
  One display frame: the callbacks requested so far run in the order of their requests,
  and what they request goes to the next frame. The clock reads \<open>now\<close> throughout a
  frame, and throughout a click handler.
\<close>

fun runCallbacks ::
  "real \<Rightarrow> (Vector3 \<times> Vector3) option \<Rightarrow> callback list \<Rightarrow> App \<Rightarrow> App" where
  "runCallbacks now orbit [] s = s"
| "runCallbacks now orbit (cb # cbs) s = runCallbacks now orbit cbs (runCallback now orbit cb s)"

definition animationFrame :: "real \<Rightarrow> (Vector3 \<times> Vector3) option \<Rightarrow> App \<Rightarrow> App" where
  "animationFrame now orbit s =
     runCallbacks now orbit (frameCallbacks s) (s\<lparr>frameCallbacks := []\<rparr>)"

text \<open>
  What can happen to the page: the four buttons, a display frame (with what the controls
  update of that frame does to the camera), a model (or its placeholder) arriving for
  the mother or the child, and the pointer handlers of \<open>setupBasicControls\<close>, which put
  the camera somewhere and turn it (the drag handler), or push it along its direction
  (the wheel handler).
\<close>

datatype event =
    ClickMotherView real
  | ClickChildView real
  | ClickEmotionalView real
  | ClickTriggerBridge real
  | AnimationFrame real "(Vector3 \<times> Vector3) option"
  | MotherLoaded nat
  | ChildLoaded nat
  | ControlsMoveCamera Vector3 Vector3
  | Wheel real

fun step :: "event \<Rightarrow> App \<Rightarrow> App" where
  "step (ClickMotherView now) s = switchToMotherView now s"
| "step (ClickChildView now) s = switchToChildView now s"
| "step (ClickEmotionalView now) s = switchToEmotionalView now s"
| "step (ClickTriggerBridge now) s = triggerBridgeMechanism now s"
| "step (AnimationFrame now orbit) s = animationFrame now orbit s"
| "step (MotherLoaded mesh) s = setMother mesh s"
| "step (ChildLoaded mesh) s = setChild mesh s"
| "step (ControlsMoveCamera p q) s = lookAt q (s\<lparr>camera_position := p\<rparr>)"
| "step (Wheel deltaY) s =
     s\<lparr>camera_position := add (camera_position s) (multiplyScalar (camera_direction s) (deltaY * 0.01))\<rparr>"

fun run :: "event list \<Rightarrow> App \<Rightarrow> App" where
  "run [] s = s"
| "run (e # es) s = run es (step e s)"

text \<open>
  The page when \<open>App.init\<close> returns at clock reading \<open>now\<close>: the scene with its
  bridge, the camera on its way to the mother preset, the status text initialised, no
  model arrived yet, and the render loop started by its first, direct call. What the
  controls update of that first call does to the camera is the event
  \<open>ControlsMoveCamera\<close>, which may follow at once (\<open>appAnimate_controls\<close> below).
\<close>

definition newApp :: App where
  "newApp =
     \<lparr>camera_position = Vector3 0 0 0, camera_direction = Vector3 0 0 (- 1),
      camera_lookAt = Vector3 0 0 (- 1), currentPreset = None, isAnimating = False,
      bridge = None, mother = None, child = None, meshPosition = (\<lambda>_. Vector3 0 0 0),
      currentState = searching, console = [], frameCallbacks = []\<rparr>"

definition initApp :: "real \<Rightarrow> App" where
  "initApp now =
     appAnimate None (updateStatus searching (setPresetView ''mother'' now (createBridge newApp)))"

text \<open>The camera transitions in flight: the pending closures of \<open>animateToPosition\<close>.\<close>

fun isCameraAnimate :: "callback \<Rightarrow> bool" where
  "isCameraAnimate (CameraAnimate _ _ _ _ _) = True"
| "isCameraAnimate _ = False"

definition cameraTweens :: "callback list \<Rightarrow> nat" where
  "cameraTweens cbs = length (filter isCameraAnimate cbs)"

section \<open>Predicates for the proofs\<close>

text \<open>
  Which object a callback writes: a camera tween and the render loop (through the
  controls) write the camera, a segment tween its segment, a character tween its mesh.
\<close>

datatype writeTarget = TheCamera | TheSegment segment | TheMesh nat

fun writes :: "callback \<Rightarrow> writeTarget \<Rightarrow> bool" where
  "writes (CameraAnimate _ _ _ _ _) w = (w = TheCamera)"
| "writes (SegmentAnimate seg _ _ _) w = (w = TheSegment seg)"
| "writes (CharacterAnimate k _ _ _ _) w = (w = TheMesh k)"
| "writes AppAnimate w = (w = TheCamera)"

text \<open>Whether a callback run at clock reading \<open>now\<close> requests itself again.\<close>

fun stays :: "real \<Rightarrow> callback \<Rightarrow> bool" where
  "stays now (CameraAnimate _ _ _ _ startTime) = (progressOf (now - startTime) 2000 < 1)"
| "stays now (SegmentAnimate _ _ _ startTime) = (progressOf (now - startTime) 1000 < 1)"
| "stays now (CharacterAnimate _ _ _ _ startTime) = (progressOf (now - startTime) 2000 < 1)"
| "stays now AppAnimate = True"

text \<open>
  \<open>decisive T w cbs\<close>: the callback \<open>T\<close> occurs in \<open>cbs\<close> at a place after which
  nothing but \<open>T\<close> itself writes the object \<open>w\<close>; so when the list is run, the last
  write to \<open>w\<close> is one of \<open>T\<close>.
\<close>

fun decisive :: "callback \<Rightarrow> writeTarget \<Rightarrow> callback list \<Rightarrow> bool" where
  "decisive T w [] = False"
| "decisive T w (h # cbs) =
     (decisive T w cbs \<or> (h = T \<and> (\<forall>cb \<in> set cbs. writes cb w \<longrightarrow> cb = T)))"

text \<open>
  The tweens the source starts move a segment in depth only and a character sideways
  only.
\<close>

fun wellTargeted :: "callback \<Rightarrow> bool" where
  "wellTargeted (SegmentAnimate _ _ tgt _) = (target_x tgt = None \<and> target_y tgt = None)"
| "wellTargeted (CharacterAnimate _ _ tgt _ _) = (target_y tgt = None \<and> target_z tgt = None)"
| "wellTargeted _ = True"

text \<open>
  What no well-targeted tween and no button changes: which meshes are the mother and
  the child, the height and depth of every mesh, and the sideways position and height
  of the two segments.
\<close>

definition segmentFrame :: "App \<Rightarrow> (real \<times> real \<times> real \<times> real) option" where
  "segmentFrame x =
     map_option (\<lambda>b. (vx (left b), vy (left b), vx (right b), vy (right b))) (bridge x)"

definition untouched ::
  "App \<Rightarrow> nat option \<times> nat option \<times> (nat \<Rightarrow> real \<times> real) \<times> (real \<times> real \<times> real \<times> real) option" where
  "untouched x =
     (mother x, child x, (\<lambda>k. (vy (meshPosition x k), vz (meshPosition x k))), segmentFrame x)"

text \<open>Kinds of events, and frames before a given clock reading.\<close>

fun triggerClick :: "event \<Rightarrow> bool" where
  "triggerClick (ClickTriggerBridge _) = True"
| "triggerClick _ = False"

fun characterLoaded :: "event \<Rightarrow> bool" where
  "characterLoaded (MotherLoaded _) = True"
| "characterLoaded (ChildLoaded _) = True"
| "characterLoaded _ = False"

fun frameBefore :: "real \<Rightarrow> event \<Rightarrow> bool" where
  "frameBefore t (AnimationFrame now _) = (now < t)"
| "frameBefore t _ = True"

text \<open>
  The closures a firing trigger starts at clock reading \<open>now\<close>: for the two segments
  of the bridge \<open>b\<close>, and for the two characters standing at their platform positions.
\<close>

definition leftMove :: "Bridge \<Rightarrow> real \<Rightarrow> callback" where
  "leftMove b now = SegmentAnimate LeftSegment (left b)
     \<lparr>target_x = None, target_y = None, target_z = Some (vz (left b) + 0.3)\<rparr> now"

definition rightMove :: "Bridge \<Rightarrow> real \<Rightarrow> callback" where
  "rightMove b now = SegmentAnimate RightSegment (right b)
     \<lparr>target_x = None, target_y = None, target_z = Some (vz (right b) + 0.3)\<rparr> now"

definition motherWalk :: "nat \<Rightarrow> real \<Rightarrow> callback" where
  "motherWalk m t0 = CharacterAnimate m (Vector3 (- 12) 1 0)
     \<lparr>target_x = Some (- 2), target_y = None, target_z = None\<rparr> (Some LogReunion) t0"

definition childWalk :: "nat \<Rightarrow> real \<Rightarrow> callback" where
  "childWalk c t0 = CharacterAnimate c (Vector3 12 1 0)
     \<lparr>target_x = Some 2, target_y = None, target_z = None\<rparr> None t0"

definition reunionWalks :: "App \<Rightarrow> real \<Rightarrow> callback list" where
  "reunionWalks s now =
     (case (mother s, child s) of
        (Some m, Some c) \<Rightarrow>
          [CharacterAnimate m (meshPosition s m)
             \<lparr>target_x = Some (- 2), target_y = None, target_z = None\<rparr> (Some LogReunion) now,
           CharacterAnimate c (meshPosition s c)
             \<lparr>target_x = Some 2, target_y = None, target_z = None\<rparr> None now]
      | _ \<Rightarrow> [])"

text \<open>
  \<open>inFlight cb cbs x\<close>: a transition is marked running, and the camera tween \<open>cb\<close>
  is the one camera tween among the callbacks still to run in this frame (\<open>cbs\<close>) and
  those queued for the next, with no run of the render loop behind it.
\<close>

definition inFlight :: "callback \<Rightarrow> callback list \<Rightarrow> App \<Rightarrow> bool" where
  "inFlight cb cbs x =
     (isAnimating x \<and> cameraTweens cbs + cameraTweens (frameCallbacks x) = 1 \<and>
      decisive cb TheCamera (frameCallbacks x @ cbs))"

text \<open>
  A coordinate \<open>r\<close> reached from \<open>a\<close> towards \<open>b\<close> is within rounding of \<open>b\<close>;
  the last interpolation step from \<open>a\<close> to \<open>b\<close> is exact.
\<close>

definition withinRounding :: "real \<Rightarrow> real \<Rightarrow> real \<Rightarrow> bool" where
  "withinRounding a b r = (\<bar>r - b\<bar> \<le> (\<bar>b\<bar> + 3 * \<bar>b - a\<bar>) / 2 ^ 52)"

definition nearVector :: "Vector3 \<Rightarrow> Vector3 \<Rightarrow> Vector3 \<Rightarrow> bool" where
  "nearVector v1 v2 r =
     (withinRounding (vx v1) (vx v2) (vx r) \<and> withinRounding (vy v1) (vy v2) (vy r) \<and>
      withinRounding (vz v1) (vz v2) (vz r))"

definition exactStep :: "real \<Rightarrow> real \<Rightarrow> bool" where
  "exactStep a b = (roundDouble (b - a) = b - a \<and> roundDouble b = b)"

definition exactVector :: "Vector3 \<Rightarrow> Vector3 \<Rightarrow> bool" where
  "exactVector v1 v2 =
     (exactStep (vx v1) (vx v2) \<and> exactStep (vy v1) (vy v2) \<and> exactStep (vz v1) (vz v2))"

section \<open>Basic facts\<close>

named_theorems app_defs

declare requestAnimationFrame_def [app_defs] console_log_def [app_defs] lookAt_def [app_defs]
  cameraAnimate_def [app_defs] animateToPosition_def [app_defs] setPresetView_def [app_defs]
  createBridge_def [app_defs] setMother_def [app_defs] setChild_def [app_defs]
  characterAnimate_def [app_defs] animateCharacter_def [app_defs] segmentAnimate_def [app_defs]
  animateBridgeSegment_def [app_defs] triggerReunion_def [app_defs]
  triggerBridgeMovement_def [app_defs] setBridgeAligned_def [app_defs]
  bridge_isAligned_def [app_defs] switchToMotherView_def [app_defs]
  switchToChildView_def [app_defs] switchToEmotionalView_def [app_defs]
  triggerBridgeMechanism_def [app_defs] updateStatus_def [app_defs]
  updateFromSceneState_def [app_defs] sceneStateOf_def [app_defs] appAnimate_def [app_defs]
  

lemma progressOf_same [simp]: "progressOf (t - t) 2000 = 0" "progressOf (t - t) 1000 = 0"
  by (simp_all add: progressOf_def)

lemma progressOf_zero [simp]: "progressOf 0 d = 0"
  by (simp add: progressOf_def)

lemma progressOf_complete: "0 < d \<Longrightarrow> d \<le> e \<Longrightarrow> progressOf e d = 1"
  by (simp add: progressOf_def min_def)

lemma progressOf_running: "0 < d \<Longrightarrow> e < d \<Longrightarrow> progressOf e d < 1"
  by (simp add: progressOf_def min_def)

lemma easeProgressOf_0 [simp]: "easeProgressOf 0 = 0"
  by (simp add: easeProgressOf_def)

lemma easeProgressOf_1 [simp]: "easeProgressOf 1 = 1"
  by (simp add: easeProgressOf_def)

lemma controlsUpdate_fields [simp]:
  "mother (controlsUpdate orbit s) = mother s"
  "child (controlsUpdate orbit s) = child s"
  "meshPosition (controlsUpdate orbit s) = meshPosition s"
  "bridge (controlsUpdate orbit s) = bridge s"
  "currentState (controlsUpdate orbit s) = currentState s"
  "console (controlsUpdate orbit s) = console s"
  "frameCallbacks (controlsUpdate orbit s) = frameCallbacks s"
  "isAnimating (controlsUpdate orbit s) = isAnimating s"
  "currentPreset (controlsUpdate orbit s) = currentPreset s"
  by (simp_all add: controlsUpdate_def lookAt_def split: option.splits prod.splits)

lemma presets_simps [simp]:
  "presets ''mother'' = Some preset_mother"
  "presets ''child'' = Some preset_child"
  "presets ''emotional'' = Some preset_emotional"
  by (simp_all add: presets_def)

lemma cameraTweens_simps [simp]:
  "cameraTweens [] = 0"
  "cameraTweens (cb # cbs) = (if isCameraAnimate cb then 1 else 0) + cameraTweens cbs"
  "cameraTweens (xs @ ys) = cameraTweens xs + cameraTweens ys"
  by (simp_all add: cameraTweens_def)

lemma run_append: "run (es @ fs) s = run fs (run es s)"
  by (induction es arbitrary: s) simp_all

lemma run_invariant:
  assumes "P s" and "\<And>e s'. P s' \<Longrightarrow> P (step e s')"
  shows "P (run es s)"
  using assms(1)
proof (induction es arbitrary: s)
  case Nil
  then show ?case by simp
next
  case (Cons e es)
  then show ?case using assms(2) by simp
qed

section \<open>The proximity test and the trigger\<close>

text \<open>
  C7. \<open>isNearEmotionalView(threshold)\<close> is true exactly when the Euclidean distance from the
  camera position to the stored position of the emotional preset is strictly below the
  threshold, and a call without argument uses the threshold 2.
\<close>

theorem isNearEmotionalView_iff:
  "presets ''emotional'' = Some preset_emotional \<and>
   isNearEmotionalView (Some threshold) s =
     (distanceTo (camera_position s) (preset_position preset_emotional) < threshold) \<and>
   isNearEmotionalView None s = isNearEmotionalView (Some 2) s"
  by (simp add: isNearEmotionalView_def)

theorem isNearEmotionalView_iff_witness:
  "isNearEmotionalView (Some 3) (newApp\<lparr>camera_position := Vector3 0 5 22\<rparr>) \<and>
   \<not> isNearEmotionalView None (newApp\<lparr>camera_position := Vector3 0 5 22\<rparr>)"
  using isNearEmotionalView_iff [of 3 "newApp\<lparr>camera_position := Vector3 0 5 22\<rparr>"]
    isNearEmotionalView_iff [of 2 "newApp\<lparr>camera_position := Vector3 0 5 22\<rparr>"]
  by (simp add: distanceTo_def preset_emotional_def)

text \<open>
  C10. The trigger tests the proximity with the threshold 3, not with the default 2: at
  every camera position whose distance from the emotional preset lies in \<open>[2, 3)\<close> the
  default test fails, the trigger's test succeeds, and the trigger takes its movement
  branch (it calls \<open>triggerBridgeMovement\<close> and logs no hint).
\<close>

theorem trigger_threshold_three:
  assumes "2 \<le> distanceTo (camera_position s) (preset_position preset_emotional)"
    and "distanceTo (camera_position s) (preset_position preset_emotional) < 3"
  shows "\<not> isNearEmotionalView None s \<and> isNearEmotionalView (Some 3) s \<and>
         triggerBridgeMechanism now s = triggerBridgeMovement now s"
  using assms by (simp add: isNearEmotionalView_def triggerBridgeMechanism_def)

theorem trigger_threshold_three_witness:
  "distanceTo (camera_position (step (ControlsMoveCamera (Vector3 0 5 22) (Vector3 0 0 0)) (initApp 0)))
     (preset_position preset_emotional) = 2 \<and>
   \<not> isNearEmotionalView None (step (ControlsMoveCamera (Vector3 0 5 22) (Vector3 0 0 0)) (initApp 0)) \<and>
   isNearEmotionalView (Some 3) (step (ControlsMoveCamera (Vector3 0 5 22) (Vector3 0 0 0)) (initApp 0)) \<and>
   triggerBridgeMechanism 1 (step (ControlsMoveCamera (Vector3 0 5 22) (Vector3 0 0 0)) (initApp 0)) =
     triggerBridgeMovement 1 (step (ControlsMoveCamera (Vector3 0 5 22) (Vector3 0 0 0)) (initApp 0))"
  using trigger_threshold_three
    [of "step (ControlsMoveCamera (Vector3 0 5 22) (Vector3 0 0 0)) (initApp 0)" 1]
  by (simp add: distanceTo_def preset_emotional_def lookAt_def)

text \<open>
  C2. A trigger while the stored flag is false and the camera is at distance at least 3
  (the trigger's threshold) from the emotional preset changes nothing but the console:
  the bridge (both segment positions and the flag) is the same, no tween is started, and
  the call returns normally with one hint logged.
\<close>

theorem premature_trigger_noop:
  assumes "\<not> bridge_isAligned s"
    and "3 \<le> distanceTo (camera_position s) (preset_position preset_emotional)"
  shows "triggerBridgeMechanism now s = s\<lparr>console := console s @ [AlignFirst]\<rparr> \<and>
         bridge (triggerBridgeMechanism now s) = bridge s \<and>
         frameCallbacks (triggerBridgeMechanism now s) = frameCallbacks s"
  using assms by (simp add: isNearEmotionalView_def triggerBridgeMechanism_def console_log_def)

theorem premature_trigger_noop_witness:
  "\<not> bridge_isAligned (step (ControlsMoveCamera (Vector3 0 5 24) (Vector3 0 0 0)) (initApp 0)) \<and>
   distanceTo (camera_position (step (ControlsMoveCamera (Vector3 0 5 24) (Vector3 0 0 0)) (initApp 0)))
     (preset_position preset_emotional) = 4 \<and>
   bridge (triggerBridgeMechanism 1 (step (ControlsMoveCamera (Vector3 0 5 24) (Vector3 0 0 0)) (initApp 0))) =
     Some \<lparr>left = Vector3 (- 6) 0.5 0, right = Vector3 6 0.5 0, isAligned = False\<rparr> \<and>
   console (triggerBridgeMechanism 1 (step (ControlsMoveCamera (Vector3 0 5 24) (Vector3 0 0 0)) (initApp 0))) =
     [AlignFirst]"
proof -
  have d: "distanceTo (camera_position (step (ControlsMoveCamera (Vector3 0 5 24) (Vector3 0 0 0)) (initApp 0)))
     (preset_position preset_emotional) = 4"
    using real_sqrt_abs2 [of 4] by (simp add: distanceTo_def preset_emotional_def lookAt_def)
  have a: "\<not> bridge_isAligned (step (ControlsMoveCamera (Vector3 0 5 24) (Vector3 0 0 0)) (initApp 0))"
    by (simp add: initApp_def newApp_def app_defs Let_def)
  have b: "bridge (step (ControlsMoveCamera (Vector3 0 5 24) (Vector3 0 0 0)) (initApp 0)) =
     Some \<lparr>left = Vector3 (- 6) 0.5 0, right = Vector3 6 0.5 0, isAligned = False\<rparr>"
    by (simp add: initApp_def newApp_def app_defs Let_def)
  have c: "console (step (ControlsMoveCamera (Vector3 0 5 24) (Vector3 0 0 0)) (initApp 0)) = []"
    by (simp add: initApp_def newApp_def app_defs Let_def)
  show ?thesis
    using premature_trigger_noop
      [of "step (ControlsMoveCamera (Vector3 0 5 24) (Vector3 0 0 0)) (initApp 0)" 1] a b c d
    by simp
qed

lemma triggerBridgeMovement_unaligned: "\<not> bridge_isAligned s \<Longrightarrow> triggerBridgeMovement now s = s"
  by (simp add: triggerBridgeMovement_def bridge_isAligned_def split: option.splits)

text \<open>
  C1. The trigger is to fire when the camera is within the threshold of the emotional
  preset or the stored flag is set. Evaluated with the camera exactly on the emotional
  preset position and the flag still false: the proximity test succeeds, and the click
  leaves the whole state as it was (no segment moves, no tween is started, nothing is
  logged), because \<open>triggerBridgeMovement\<close> tests the stored flag alone.
\<close>

theorem trigger_near_unaligned_does_nothing:
  "isNearEmotionalView (Some 3)
     (step (ControlsMoveCamera (Vector3 0 5 20) (Vector3 0 0.5 0)) (initApp 0)) \<and>
   bridge (step (ControlsMoveCamera (Vector3 0 5 20) (Vector3 0 0.5 0)) (initApp 0)) =
     Some \<lparr>left = Vector3 (- 6) 0.5 0, right = Vector3 6 0.5 0, isAligned = False\<rparr> \<and>
   step (ClickTriggerBridge 1) (step (ControlsMoveCamera (Vector3 0 5 20) (Vector3 0 0.5 0)) (initApp 0)) =
     step (ControlsMoveCamera (Vector3 0 5 20) (Vector3 0 0.5 0)) (initApp 0)"
proof -
  let ?s = "step (ControlsMoveCamera (Vector3 0 5 20) (Vector3 0 0.5 0)) (initApp 0)"
  have n: "isNearEmotionalView (Some 3) ?s"
    by (simp add: isNearEmotionalView_def distanceTo_def preset_emotional_def lookAt_def)
  have b: "bridge ?s = Some \<lparr>left = Vector3 (- 6) 0.5 0, right = Vector3 6 0.5 0, isAligned = False\<rparr>"
    by (simp add: initApp_def newApp_def app_defs Let_def)
  then have "\<not> bridge_isAligned ?s"
    by (simp add: bridge_isAligned_def)
  then have "triggerBridgeMechanism 1 ?s = ?s"
    using n by (simp add: triggerBridgeMechanism_def triggerBridgeMovement_unaligned)
  then show ?thesis using n b by simp
qed

section \<open>The narrative state\<close>

text \<open>
  C6. The state shown is a function of the character distance, the triggered flag and
  the alignment flag alone, the distance rule first: \<open>reunited\<close> below 5 units,
  otherwise \<open>connected\<close> if triggered, otherwise \<open>aligning\<close> if aligned, otherwise
  \<open>searching\<close>; distance 3 with the alignment flag set gives \<open>reunited\<close>. Each frame
  the render loop passes the comparison of the distance between the two characters
  with 5.
\<close>

theorem narrative_state_derivation:
  "updateFromSceneState
     \<lparr>bridgeAligned = a, bridgeTriggered = t, motherChildReunited = (d < 5)\<rparr> s =
     s\<lparr>currentState := (if d < (5::real) then reunited else if t then connected
                         else if a then aligning else searching)\<rparr> \<and>
   currentState (updateFromSceneState
     \<lparr>bridgeAligned = True, bridgeTriggered = t, motherChildReunited = ((3::real) < 5)\<rparr> s) = reunited \<and>
   (mother s = Some m \<and> child s = Some c \<longrightarrow>
      sceneStateOf s =
        \<lparr>bridgeAligned = bridge_isAligned s, bridgeTriggered = False,
         motherChildReunited = (distanceTo (meshPosition s m) (meshPosition s c) < 5)\<rparr> \<and>
      currentState (appAnimate orbit s) =
        (if distanceTo (meshPosition s m) (meshPosition s c) < 5 then reunited
         else if bridge_isAligned s then aligning else searching))"
  by (simp add: updateFromSceneState_def updateStatus_def sceneStateOf_def appAnimate_def
      requestAnimationFrame_def bridge_isAligned_def Let_def)

theorem narrative_state_derivation_witness:
  "mother (setChild 2 (setMother 1 newApp)) = Some 1 \<and>
   child (setChild 2 (setMother 1 newApp)) = Some 2 \<and>
   currentState (appAnimate None (setChild 2 (setMother 1 newApp))) = searching \<and>
   currentState (updateFromSceneState
     \<lparr>bridgeAligned = True, bridgeTriggered = False, motherChildReunited = ((3::real) < 5)\<rparr> newApp) =
     reunited"
proof -
  have d: "distanceTo (meshPosition (setChild 2 (setMother 1 newApp)) 1)
             (meshPosition (setChild 2 (setMother 1 newApp)) 2) = 24"
    using real_sqrt_abs2 [of 24] by (simp add: distanceTo_def setChild_def setMother_def)
  have m: "mother (setChild 2 (setMother 1 newApp)) = Some 1"
    and c: "child (setChild 2 (setMother 1 newApp)) = Some 2"
    and a: "\<not> bridge_isAligned (setChild 2 (setMother 1 newApp))"
    by (simp_all add: setChild_def setMother_def newApp_def bridge_isAligned_def)
  show ?thesis
    using narrative_state_derivation [of True False 3 newApp 1 2]
      narrative_state_derivation [of True False 3 "setChild 2 (setMother 1 newApp)" 1 2] m c a d
    by simp
qed

section \<open>Invariants of the running page\<close>

lemma runCallback_not_connected:
  "currentState s \<noteq> connected \<Longrightarrow> currentState (runCallback now orbit cb s) \<noteq> connected"
  by (cases cb) (auto simp: app_defs Let_def split: option.splits completion.splits)

lemma runCallbacks_not_connected:
  "currentState s \<noteq> connected \<Longrightarrow> currentState (runCallbacks now orbit cbs s) \<noteq> connected"
  by (induction cbs arbitrary: s) (simp_all add: runCallback_not_connected)

lemma step_not_connected:
  "currentState s \<noteq> connected \<Longrightarrow> currentState (step e s) \<noteq> connected"
proof (cases e)
  case (AnimationFrame now orbit)
  assume "currentState s \<noteq> connected"
  then show ?thesis
    using runCallbacks_not_connected [of "s\<lparr>frameCallbacks := []\<rparr>" now orbit "frameCallbacks s"]
    by (simp add: AnimationFrame animationFrame_def)
qed (auto simp: app_defs Let_def split: option.splits)

lemma init_not_connected: "currentState (initApp now) \<noteq> connected"
  by (simp add: initApp_def newApp_def app_defs Let_def)

text \<open>
  C8. The state shown is never \<open>connected\<close>: the scene state handed to the UI each
  frame has \<open>bridgeTriggered = false\<close>, and no state the page can reach shows it.
\<close>

theorem never_connected:
  "currentState (run es (initApp t0)) \<noteq> connected \<and> bridgeTriggered (sceneStateOf s) = False"
proof
  show "currentState (run es (initApp t0)) \<noteq> connected"
    by (rule run_invariant [where P = "\<lambda>s. currentState s \<noteq> connected"])
       (simp_all only: init_not_connected step_not_connected not_False_eq_True)
  show "bridgeTriggered (sceneStateOf s) = False"
    by (simp add: sceneStateOf_def)
qed

theorem never_connected_witness:
  "currentState (run [ClickEmotionalView 1, AnimationFrame 2 None] (initApp 0)) = aligning"
proof -
  have "currentState (run [ClickEmotionalView 1, AnimationFrame 2 None] (initApp 0)) \<noteq> connected"
    using never_connected [of "[ClickEmotionalView 1, AnimationFrame 2 None]" 0] by simp
  then show ?thesis
    by (simp add: initApp_def newApp_def app_defs Let_def animationFrame_def
        progressOf_def min_def)
qed

lemma runCallback_single_flight:
  assumes "cameraTweens (cb # cbs) + cameraTweens (frameCallbacks s) = (if isAnimating s then 1 else 0)"
  shows "cameraTweens cbs + cameraTweens (frameCallbacks (runCallback now orbit cb s)) =
         (if isAnimating (runCallback now orbit cb s) then 1 else 0)"
  using assms
  by (cases cb) (auto simp: app_defs Let_def split: option.splits if_splits completion.splits)

lemma runCallbacks_single_flight:
  "cameraTweens cbs + cameraTweens (frameCallbacks s) = (if isAnimating s then 1 else 0) \<Longrightarrow>
   cameraTweens (frameCallbacks (runCallbacks now orbit cbs s)) =
     (if isAnimating (runCallbacks now orbit cbs s) then 1 else 0)"
proof (induction cbs arbitrary: s)
  case Nil
  then show ?case by simp
next
  case (Cons cb cbs)
  show ?case
    using Cons.IH [OF runCallback_single_flight [OF Cons.prems]] by simp
qed

lemma step_single_flight:
  assumes "cameraTweens (frameCallbacks s) = (if isAnimating s then 1 else 0)"
  shows "cameraTweens (frameCallbacks (step e s)) = (if isAnimating (step e s) then 1 else 0)"
proof (cases e)
  case (AnimationFrame now orbit)
  show ?thesis
    using assms runCallbacks_single_flight [of "frameCallbacks s" "s\<lparr>frameCallbacks := []\<rparr>" now orbit]
    by (simp add: AnimationFrame animationFrame_def)
qed (use assms in \<open>auto simp: app_defs Let_def split: option.splits\<close>)

lemma init_single_flight:
  "cameraTweens (frameCallbacks (initApp now)) = (if isAnimating (initApp now) then 1 else 0)"
  by (simp add: initApp_def newApp_def app_defs Let_def)

lemma run_single_flight:
  "cameraTweens (frameCallbacks (run es (initApp t0))) =
     (if isAnimating (run es (initApp t0)) then 1 else 0)"
  by (rule run_invariant [where P = "\<lambda>s. cameraTweens (frameCallbacks s) = (if isAnimating s then 1 else 0)"])
     (simp_all only: init_single_flight step_single_flight)

text \<open>
  C4. At most one camera transition is in flight: in every state the page can reach, the
  frame queue holds at most one camera tween, and it holds one exactly when
  \<open>isAnimating\<close> is set. A call of \<open>setPresetView\<close> while \<open>isAnimating\<close> is set
  returns the state as it was: no tween is started, and \<open>currentPreset\<close> and the camera
  keep their values.
\<close>

theorem single_camera_transition:
  "cameraTweens (frameCallbacks (run es (initApp t0))) \<le> 1 \<and>
   (isAnimating (run es (initApp t0)) \<longleftrightarrow> cameraTweens (frameCallbacks (run es (initApp t0))) = 1) \<and>
   (isAnimating s \<longrightarrow> setPresetView presetName now s = s)"
  using run_single_flight [of es t0] by (simp add: setPresetView_def)

theorem single_camera_transition_witness:
  "isAnimating (initApp 0) \<and> cameraTweens (frameCallbacks (run [] (initApp 0))) = 1 \<and>
   setPresetView ''child'' 500 (initApp 0) = initApp 0"
proof -
  have "isAnimating (initApp 0)"
    by (simp add: initApp_def newApp_def app_defs Let_def)
  then show ?thesis
    using single_camera_transition [of "[]" 0 "initApp 0" "''child''" 500] by simp
qed

section \<open>Rounding to doubles\<close>

lemma roundHalfEven_error: "\<bar>of_int (roundHalfEven y) - y\<bar> \<le> 1 / 2"
  unfolding roundHalfEven_def Let_def by (auto; linarith)

lemma floor_log2_eq:
  assumes "2 powr of_int e \<le> y" and "y < 2 powr of_int (e + 1)"
  shows "\<lfloor>log 2 y\<rfloor> = e"
proof -
  have pos: "0 < y" using assms(1) powr_gt_zero [of 2 "of_int e"] by linarith
  have "of_int e \<le> log 2 y"
    using assms(1) pos by (simp add: le_log_iff)
  moreover have "log 2 y < of_int e + 1"
    using assms(2) pos by (simp add: log_less_iff)
  ultimately show ?thesis by linarith
qed

lemma roundDouble_eval:
  assumes "2 powr of_int e \<le> \<bar>x\<bar>" and "\<bar>x\<bar> < 2 powr of_int (e + 1)"
  shows "roundDouble x =
           of_int (roundHalfEven (x / 2 powr of_int (e - 52))) * 2 powr of_int (e - 52)"
proof -
  have "x \<noteq> 0" using assms(1) powr_gt_zero [of 2 "of_int e"] by auto
  then show ?thesis
    using floor_log2_eq [OF assms] by (simp add: roundDouble_def Let_def)
qed

lemma two_powr_diff: "2 powr of_int (int a - int b) = (2::real) ^ a / 2 ^ b"
  by (simp add: powr_diff powr_realpow)

lemma roundDouble_at:
  assumes "2 ^ 52 / 2 ^ n \<le> \<bar>x\<bar>" and "\<bar>x\<bar> < 2 ^ 53 / 2 ^ n"
  shows "roundDouble x = of_int (roundHalfEven (x * 2 ^ n)) / 2 ^ n"
proof -
  have a: "2 powr of_int (int 52 - int n) \<le> \<bar>x\<bar>"
    using assms(1) by (simp only: two_powr_diff)
  have "int 52 - int n + 1 = int 53 - int n" by simp
  then have b: "\<bar>x\<bar> < 2 powr of_int (int 52 - int n + 1)"
    using assms(2) by (simp only: two_powr_diff)
  have "int 52 - int n - 52 = int 0 - int n" by simp
  then have "2 powr of_int (int 52 - int n - 52) = (1::real) / 2 ^ n"
    by (simp only: two_powr_diff) simp
  then show ?thesis
    using roundDouble_eval [OF a b] by simp
qed

lemma roundDouble_error: "\<bar>roundDouble x - x\<bar> \<le> \<bar>x\<bar> / 2 ^ 53"
proof (cases "x = 0")
  case True
  then show ?thesis by (simp add: roundDouble_def)
next
  case False
  define e where "e = \<lfloor>log 2 \<bar>x\<bar>\<rfloor>"
  define u :: real where "u = 2 powr of_int (e - 52)"
  have u: "0 < u" by (simp add: u_def)
  have le: "2 powr of_int e \<le> \<bar>x\<bar>"
    using False by (simp add: e_def le_log_iff [symmetric])
  have "roundDouble x - x = (of_int (roundHalfEven (x / u)) - x / u) * u"
    using False u by (simp add: roundDouble_def Let_def e_def u_def algebra_simps)
  then have "\<bar>roundDouble x - x\<bar> = \<bar>of_int (roundHalfEven (x / u)) - x / u\<bar> * u"
    using u by (simp add: abs_mult)
  also have "\<dots> \<le> 1 / 2 * u"
    using roundHalfEven_error [of "x / u"] u by (simp add: mult_right_mono)
  also have "\<dots> = 2 powr of_int e / 2 ^ 53"
  proof -
    have "u = 2 powr of_int e / 2 powr 52"
      by (simp add: u_def powr_diff)
    then show ?thesis by simp
  qed
  also have "\<dots> \<le> \<bar>x\<bar> / 2 ^ 53"
    using le by (simp add: divide_right_mono)
  finally show ?thesis .
qed

lemma roundDouble_zero [simp]: "roundDouble 0 = 0"
  by (simp add: roundDouble_def)

lemma lerp_start [simp]: "lerp a b 0 = roundDouble a"
  by (simp add: lerp_def)

lemma lerp_exact: "exactStep a b \<Longrightarrow> lerp a b 1 = b"
  by (simp add: exactStep_def lerp_def)

lemma lerp_withinRounding: "withinRounding a b (lerp a b 1)"
proof -
  define eps :: real where "eps = 1 / 2 ^ 53"
  define D where "D = \<bar>b - a\<bar>"
  define B where "B = \<bar>b\<bar>"
  define d where "d = roundDouble (b - a)"
  define d' where "d' = roundDouble d"
  define r where "r = roundDouble (a + d')"
  define E where "E = \<bar>d\<bar>"
  define F where "F = \<bar>a + d'\<bar>"
  have eps: "0 < eps" "eps \<le> 1" by (simp_all add: eps_def)
  have D: "0 \<le> D" "0 \<le> B" "0 \<le> E" "0 \<le> F" by (simp_all add: D_def B_def E_def F_def)
  have 1: "\<bar>d - (b - a)\<bar> \<le> D * eps"
    using roundDouble_error [of "b - a"] by (simp add: d_def eps_def D_def)
  have 2: "\<bar>d' - d\<bar> \<le> E * eps"
    using roundDouble_error [of d] by (simp add: d'_def eps_def E_def)
  have 3: "\<bar>r - (a + d')\<bar> \<le> F * eps"
    using roundDouble_error [of "a + d'"] by (simp add: r_def eps_def F_def)
  have De: "D * eps \<le> D"
    using eps D by (intro mult_left_le) simp_all
  have dle: "E \<le> 2 * D"
    using 1 De E_def D_def by linarith
  have "E * eps \<le> (2 * D) * eps"
    using dle eps by (intro mult_right_mono) simp_all
  then have 4: "\<bar>d' - (b - a)\<bar> \<le> 3 * (D * eps)"
    using 1 2 E_def by linarith
  have 5: "F \<le> B + 3 * D"
    using 4 De F_def B_def D_def by linarith
  have "F * eps \<le> (B + 3 * D) * eps"
    using 5 eps by (intro mult_right_mono) simp_all
  then have "\<bar>r - b\<bar> \<le> (B + 3 * D) * eps + 3 * (D * eps)"
    using 3 4 F_def by linarith
  also have "\<dots> \<le> (B + 3 * D) * (2 * eps)"
    using eps D by (simp add: algebra_simps)
  also have "\<dots> = (B + 3 * D) / 2 ^ 52"
    by (simp add: eps_def)
  finally show ?thesis
    by (simp add: withinRounding_def lerp_def r_def d'_def d_def B_def D_def)
qed

lemma lerpVectors_near: "nearVector v1 v2 (lerpVectors v1 v2 1)"
  by (simp add: nearVector_def lerpVectors_def lerp_withinRounding)

lemma lerpVectors_exact: "exactVector v1 v2 \<Longrightarrow> lerpVectors v1 v2 1 = v2"
  by (cases v2) (simp add: exactVector_def lerpVectors_def lerp_exact)

section \<open>The frame queue\<close>

lemma appAnimate_controls:
  "appAnimate (Some (p, q)) s = step (ControlsMoveCamera p q) (appAnimate None s)"
  by (cases "mother s"; cases "child s"; cases "bridge s")
     (simp_all add: app_defs controlsUpdate_def Let_def)

lemma runCallback_queue:
  "frameCallbacks (runCallback now orbit h x) =
     frameCallbacks x @ (if stays now h then [h] else [])"
  by (cases h) (auto simp: app_defs Let_def split: option.splits completion.splits)

lemma decisive_mem: "decisive T w cbs \<Longrightarrow> T \<in> set cbs"
  by (induction cbs) auto

lemma decisive_append_left: "decisive T w ys \<Longrightarrow> decisive T w (xs @ ys)"
  by (induction xs) auto

lemma decisive_append_right:
  "decisive T w xs \<Longrightarrow> \<forall>cb \<in> set ys. writes cb w \<longrightarrow> cb = T \<Longrightarrow> decisive T w (xs @ ys)"
  by (induction xs) auto

lemma decisive_remove: "decisive T w (xs @ h # ys) \<Longrightarrow> h \<noteq> T \<Longrightarrow> decisive T w (xs @ ys)"
  by (induction xs) auto

lemma decisive_last:
  "\<forall>cb \<in> set ys. writes cb w \<longrightarrow> cb = T \<Longrightarrow> decisive T w (xs @ T # ys)"
  by (rule decisive_append_left) simp

lemma runCallback_decisive:
  assumes "decisive T w (frameCallbacks x @ h # cbs)" and "stays now T"
  shows "decisive T w (frameCallbacks (runCallback now orbit h x) @ cbs)"
proof (cases "stays now h")
  case True
  then show ?thesis using assms(1) by (simp add: runCallback_queue)
next
  case False
  then have "h \<noteq> T" using assms(2) by auto
  then show ?thesis
    using decisive_remove [OF assms(1)] False by (simp add: runCallback_queue)
qed

lemma runCallbacks_decisive:
  assumes "stays now T"
  shows "decisive T w (frameCallbacks x @ cbs) \<Longrightarrow>
         decisive T w (frameCallbacks (runCallbacks now orbit cbs x))"
proof (induction cbs arbitrary: x)
  case Nil
  then show ?case by simp
next
  case (Cons h cbs)
  show ?case
    using Cons.IH [OF runCallback_decisive [OF Cons.prems assms]] by simp
qed

text \<open>
  The last write wins: if \<open>T\<close> is decisive for \<open>w\<close> among the callbacks of a frame,
  a run of \<open>T\<close> forces \<open>G\<close>, and callbacks that do not write \<open>w\<close> keep \<open>G\<close>, then \<open>G\<close>
  holds after the frame.
\<close>

lemma runCallbacks_last_write:
  assumes forced: "\<And>y. G (runCallback now orbit T y)"
    and kept: "\<And>h y. \<not> writes h w \<Longrightarrow> G y \<Longrightarrow> G (runCallback now orbit h y)"
  shows "decisive T w cbs \<or> (G x \<and> (\<forall>cb \<in> set cbs. writes cb w \<longrightarrow> cb = T)) \<Longrightarrow>
         G (runCallbacks now orbit cbs x)"
proof (induction cbs arbitrary: x)
  case Nil
  then show ?case by simp
next
  case (Cons h cbs)
  have "decisive T w cbs \<or>
        (G (runCallback now orbit h x) \<and> (\<forall>cb \<in> set cbs. writes cb w \<longrightarrow> cb = T))"
    using Cons.prems forced [of x] kept [of h x] by auto
  then show ?case using Cons.IH by simp
qed

section \<open>What tweens leave alone\<close>

lemma tweenPosition_coords [simp]:
  "vx (tweenPosition start tgt e p) =
     (case target_x tgt of None \<Rightarrow> vx p | Some x \<Rightarrow> vx start + (x - vx start) * e)"
  "vy (tweenPosition start tgt e p) =
     (case target_y tgt of None \<Rightarrow> vy p | Some y \<Rightarrow> vy start + (y - vy start) * e)"
  "vz (tweenPosition start tgt e p) =
     (case target_z tgt of None \<Rightarrow> vz p | Some z \<Rightarrow> vz start + (z - vz start) * e)"
  by (simp_all add: tweenPosition_def)

lemma runCallback_untouched:
  "wellTargeted h \<Longrightarrow> untouched (runCallback now orbit h x) = untouched x"
  by (cases h)
     (auto simp: untouched_def segmentFrame_def app_defs Let_def segmentPosition_def setSegmentPosition_def
        map_option_case fun_eq_iff split: option.splits completion.splits segment.splits)

lemma runCallbacks_untouched:
  "\<forall>cb \<in> set cbs \<union> set (frameCallbacks x). wellTargeted cb \<Longrightarrow>
   untouched (runCallbacks now orbit cbs x) = untouched x \<and>
   (\<forall>cb \<in> set (frameCallbacks (runCallbacks now orbit cbs x)). wellTargeted cb)"
proof (induction cbs arbitrary: x)
  case Nil
  then show ?case by simp
next
  case (Cons h cbs)
  have "\<forall>cb \<in> set cbs \<union> set (frameCallbacks (runCallback now orbit h x)). wellTargeted cb"
    using Cons.prems by (auto simp: runCallback_queue)
  then show ?case
    using Cons.IH [of "runCallback now orbit h x"] runCallback_untouched [of h now orbit x]
      Cons.prems by simp
qed

section \<open>Events\<close>

lemma setPresetView_queue:
  "\<exists>cs. frameCallbacks (setPresetView n now x) = frameCallbacks x @ cs \<and>
        (\<forall>cb \<in> set cs. isCameraAnimate cb)"
  by (auto simp: app_defs Let_def split: option.splits)

lemma isCameraAnimate_writes: "isCameraAnimate cb \<Longrightarrow> w \<noteq> TheCamera \<Longrightarrow> \<not> writes cb w"
  by (cases cb) simp_all

lemma isCameraAnimate_wellTargeted: "isCameraAnimate cb \<Longrightarrow> wellTargeted cb"
  by (cases cb) simp_all

lemma view_click_fields:
  "bridge (setPresetView n now x) = bridge x"
  "mother (setPresetView n now x) = mother x"
  "child (setPresetView n now x) = child x"
  "meshPosition (setPresetView n now x) = meshPosition x"
  by (auto simp: app_defs Let_def split: option.splits)

lemma view_click_untouched [simp]: "untouched (setPresetView n now x) = untouched x"
  by (simp add: untouched_def segmentFrame_def view_click_fields)

lemma setBridgeAligned_untouched [simp]: "untouched (setBridgeAligned a x) = untouched x"
  by (simp add: untouched_def segmentFrame_def setBridgeAligned_def map_option_case split: option.splits)

lemma setBridgeAligned_queue [simp]:
  "frameCallbacks (setBridgeAligned a x) = frameCallbacks x"
  by (simp add: setBridgeAligned_def split: option.splits)

text \<open>What a firing trigger does: it appends its closures and changes nothing else.\<close>

lemma tweenPosition_start [simp]: "tweenPosition start tgt 0 start = start"
  by (cases start) (simp add: tweenPosition_def split: option.splits)

lemma setSegmentPosition_same [simp]: "setSegmentPosition seg (segmentPosition seg b) b = b"
  by (cases seg) (simp_all add: setSegmentPosition_def segmentPosition_def)

lemma isAligned_setSegmentPosition [simp]: "isAligned (setSegmentPosition seg p b) = isAligned b"
  by (cases seg) (simp_all add: setSegmentPosition_def)

lemma animateCharacter_first:
  "animateCharacter k \<lparr>target_x = Some g, target_y = None, target_z = None\<rparr> oc now x =
     x\<lparr>frameCallbacks := frameCallbacks x @
          [CharacterAnimate k (meshPosition x k)
             \<lparr>target_x = Some g, target_y = None, target_z = None\<rparr> oc now]\<rparr>"
  by (simp add: app_defs Let_def)

lemma animateBridgeSegment_first:
  "bridge x = Some b \<Longrightarrow>
   animateBridgeSegment seg \<lparr>target_x = None, target_y = None, target_z = Some g\<rparr> now x =
     x\<lparr>frameCallbacks := frameCallbacks x @
          [SegmentAnimate seg (segmentPosition seg b)
             \<lparr>target_x = None, target_y = None, target_z = Some g\<rparr> now]\<rparr>"
  by (simp add: app_defs Let_def)

lemma trigger_fires:
  assumes "bridge s = Some b" and "isAligned b"
  shows "triggerBridgeMechanism now s =
           s\<lparr>frameCallbacks := frameCallbacks s @ [leftMove b now, rightMove b now] @ reunionWalks s now\<rparr>"
  using assms
  by (simp add: triggerBridgeMechanism_def triggerBridgeMovement_def bridge_isAligned_def
      animateBridgeSegment_first animateCharacter_first triggerReunion_def Let_def
      leftMove_def rightMove_def reunionWalks_def segmentPosition_def split: option.splits)

section \<open>The alignment flag\<close>

lemma runCallback_isAligned: "bridge_isAligned (runCallback now orbit cb s) = bridge_isAligned s"
  by (cases cb) (auto simp: app_defs Let_def split: option.splits completion.splits)

lemma runCallbacks_isAligned: "bridge_isAligned (runCallbacks now orbit cbs s) = bridge_isAligned s"
  by (induction cbs arbitrary: s) (simp_all add: runCallback_isAligned)

lemma step_isAligned_other:
  "(\<And>t. e \<noteq> ClickEmotionalView t) \<Longrightarrow> bridge_isAligned (step e s) = bridge_isAligned s"
proof (cases e)
  case (AnimationFrame now orbit)
  show ?thesis
    using runCallbacks_isAligned [of now orbit "frameCallbacks s" "s\<lparr>frameCallbacks := []\<rparr>"]
    by (simp add: AnimationFrame animationFrame_def bridge_isAligned_def)
qed (auto simp: app_defs Let_def split: option.splits)

lemma runCallback_bridge_present:
  "bridge s \<noteq> None \<Longrightarrow> bridge (runCallback now orbit cb s) \<noteq> None"
  by (cases cb) (auto simp: app_defs Let_def split: option.splits completion.splits)

lemma runCallbacks_bridge_present:
  "bridge s \<noteq> None \<Longrightarrow> bridge (runCallbacks now orbit cbs s) \<noteq> None"
proof (induction cbs arbitrary: s)
  case Nil
  then show ?case by simp
next
  case (Cons cb cbs)
  show ?case
    using Cons.IH [OF runCallback_bridge_present [OF Cons.prems]] by simp
qed

lemma step_bridge_present: "bridge s \<noteq> None \<Longrightarrow> bridge (step e s) \<noteq> None"
proof (cases e)
  case (AnimationFrame now orbit)
  assume "bridge s \<noteq> None"
  then show ?thesis
    using runCallbacks_bridge_present [of "s\<lparr>frameCallbacks := []\<rparr>" now orbit "frameCallbacks s"]
    by (simp add: AnimationFrame animationFrame_def)
qed (auto simp: app_defs Let_def split: option.splits)

lemma init_bridge_present: "bridge (initApp now) \<noteq> None"
  by (simp add: initApp_def newApp_def app_defs Let_def)

lemma run_bridge_present: "bridge (run es (initApp t0)) \<noteq> None"
  by (rule run_invariant [where P = "\<lambda>s. bridge s \<noteq> None"])
     (simp_all only: init_bridge_present step_bridge_present not_False_eq_True)

lemma step_isAligned_mono: "bridge_isAligned s \<Longrightarrow> bridge_isAligned (step e s)"
proof (cases "\<exists>t. e = ClickEmotionalView t")
  case True
  assume "bridge_isAligned s"
  then show ?thesis using True
    by (auto simp: app_defs Let_def split: option.splits)
next
  case False
  assume "bridge_isAligned s"
  then show ?thesis using step_isAligned_other [of e s] False by simp
qed

lemma run_isAligned_mono: "bridge_isAligned s \<Longrightarrow> bridge_isAligned (run es s)"
  by (rule run_invariant [where P = bridge_isAligned]) (simp_all add: step_isAligned_mono)

lemma emotional_sets_aligned:
  "bridge s \<noteq> None \<Longrightarrow> bridge_isAligned (step (ClickEmotionalView t) s)"
  by (auto simp: app_defs Let_def split: option.splits)

section \<open>Well-targeted tweens\<close>

lemma wellTargeted_fired [simp]:
  "wellTargeted (leftMove b now)" "wellTargeted (rightMove b now)"
  "\<forall>cb \<in> set (reunionWalks s now). wellTargeted cb"
  by (auto simp: leftMove_def rightMove_def reunionWalks_def split: option.splits)

lemma trigger_cases:
  "triggerBridgeMechanism now s = s \<or>
   triggerBridgeMechanism now s = console_log AlignFirst s \<or>
   (\<exists>b. bridge s = Some b \<and> isAligned b \<and>
        triggerBridgeMechanism now s =
          s\<lparr>frameCallbacks :=
              frameCallbacks s @ [leftMove b now, rightMove b now] @ reunionWalks s now\<rparr>)"
proof (cases "bridge_isAligned s")
  case True
  then obtain b where "bridge s = Some b" "isAligned b"
    by (auto simp: bridge_isAligned_def split: option.splits)
  then show ?thesis using trigger_fires [of s b now] by simp
next
  case False
  then show ?thesis
    by (auto simp: triggerBridgeMechanism_def triggerBridgeMovement_def bridge_isAligned_def
        split: option.splits)
qed

lemma step_wellTargeted:
  assumes "\<forall>cb \<in> set (frameCallbacks x). wellTargeted cb"
  shows "\<forall>cb \<in> set (frameCallbacks (step e x)). wellTargeted cb"
proof (cases e)
  case (AnimationFrame now orbit)
  show ?thesis
    using assms runCallbacks_untouched [of "frameCallbacks x" "x\<lparr>frameCallbacks := []\<rparr>" now orbit]
    by (simp add: AnimationFrame animationFrame_def)
next
  case (ClickTriggerBridge now)
  show ?thesis
    using assms trigger_cases [of now x] wellTargeted_fired(3) [of x now]
    by (auto simp: ClickTriggerBridge console_log_def)
next
  case (ClickMotherView now)
  show ?thesis
    using assms setPresetView_queue [of "''mother''" now x]
    by (auto simp: ClickMotherView switchToMotherView_def isCameraAnimate_wellTargeted)
next
  case (ClickChildView now)
  show ?thesis
    using assms setPresetView_queue [of "''child''" now x]
    by (auto simp: ClickChildView switchToChildView_def isCameraAnimate_wellTargeted)
next
  case (ClickEmotionalView now)
  show ?thesis
    using assms setPresetView_queue [of "''emotional''" now x]
    by (auto simp: ClickEmotionalView switchToEmotionalView_def isCameraAnimate_wellTargeted)
qed (use assms in \<open>simp_all add: app_defs\<close>)

lemma init_wellTargeted: "\<forall>cb \<in> set (frameCallbacks (initApp now)). wellTargeted cb"
  by (simp add: initApp_def newApp_def app_defs Let_def)

lemma run_wellTargeted: "\<forall>cb \<in> set (frameCallbacks (run es (initApp t0))). wellTargeted cb"
  by (rule run_invariant [where P = "\<lambda>s. \<forall>cb \<in> set (frameCallbacks s). wellTargeted cb"])
     (rule init_wellTargeted, erule step_wellTargeted)

lemma step_untouched:
  assumes "\<forall>cb \<in> set (frameCallbacks x). wellTargeted cb" and "\<not> characterLoaded e"
  shows "untouched (step e x) = untouched x"
proof (cases e)
  case (AnimationFrame now orbit)
  have "untouched (x\<lparr>frameCallbacks := []\<rparr>) = untouched x"
    by (simp add: untouched_def segmentFrame_def)
  then show ?thesis
    using assms(1) runCallbacks_untouched [of "frameCallbacks x" "x\<lparr>frameCallbacks := []\<rparr>" now orbit]
    by (simp add: AnimationFrame animationFrame_def)
next
  case (ClickTriggerBridge now)
  show ?thesis
    using trigger_cases [of now x]
    by (auto simp: ClickTriggerBridge console_log_def untouched_def segmentFrame_def)
qed (use assms(2) in \<open>simp_all add: switchToMotherView_def switchToChildView_def
      switchToEmotionalView_def\<close>, simp_all add: untouched_def segmentFrame_def lookAt_def)

lemma run_untouched:
  assumes "\<forall>cb \<in> set (frameCallbacks x). wellTargeted cb"
    and "\<forall>e \<in> set es. \<not> characterLoaded e"
  shows "untouched (run es x) = untouched x"
  using assms
proof (induction es arbitrary: x)
  case Nil
  then show ?case by simp
next
  case (Cons e es)
  then show ?case
    using step_untouched [of x e] step_wellTargeted [of x e] by simp
qed

lemma step_segmentFrame:
  assumes "\<forall>cb \<in> set (frameCallbacks x). wellTargeted cb"
  shows "segmentFrame (step e x) = segmentFrame x"
proof (cases "characterLoaded e")
  case True
  then show ?thesis
    by (cases e) (simp_all add: setMother_def setChild_def segmentFrame_def)
next
  case False
  then show ?thesis
    using step_untouched [OF assms, of e] by (simp add: untouched_def)
qed

lemma run_segmentFrame:
  assumes "\<forall>cb \<in> set (frameCallbacks x). wellTargeted cb"
  shows "segmentFrame (run es x) = segmentFrame x"
  using assms
proof (induction es arbitrary: x)
  case Nil
  then show ?case by simp
next
  case (Cons e es)
  then show ?case
    using step_segmentFrame [of x e] step_wellTargeted [of x e] by simp
qed

lemma run_bridge_kept: "bridge x \<noteq> None \<Longrightarrow> bridge (run es x) \<noteq> None"
  by (rule run_invariant [where P = "\<lambda>s. bridge s \<noteq> None"])
     (simp_all only: step_bridge_present not_False_eq_True)

section \<open>A tween stays decisive until its last frame\<close>

lemma step_decisive:
  assumes "decisive T w (frameCallbacks x)" and "w \<noteq> TheCamera" and "\<not> triggerClick e"
    and "\<And>now orbit. e = AnimationFrame now orbit \<Longrightarrow> stays now T"
  shows "decisive T w (frameCallbacks (step e x))"
proof (cases e)
  case (AnimationFrame now orbit)
  show ?thesis
    using runCallbacks_decisive [OF assms(4) [OF AnimationFrame], of w "x\<lparr>frameCallbacks := []\<rparr>"
        "frameCallbacks x" orbit] assms(1)
    by (simp add: AnimationFrame animationFrame_def)
next
  case (ClickMotherView now)
  show ?thesis
    using assms(1,2) setPresetView_queue [of "''mother''" now x]
    by (auto simp: ClickMotherView switchToMotherView_def isCameraAnimate_writes
        intro!: decisive_append_right)
next
  case (ClickChildView now)
  show ?thesis
    using assms(1,2) setPresetView_queue [of "''child''" now x]
    by (auto simp: ClickChildView switchToChildView_def isCameraAnimate_writes
        intro!: decisive_append_right)
next
  case (ClickEmotionalView now)
  show ?thesis
    using assms(1,2) setPresetView_queue [of "''emotional''" now x]
    by (auto simp: ClickEmotionalView switchToEmotionalView_def isCameraAnimate_writes
        intro!: decisive_append_right)
qed (use assms(1,3) in \<open>simp_all add: app_defs\<close>)

lemma run_decisive:
  assumes "decisive T w (frameCallbacks x)" and "w \<noteq> TheCamera"
    and "\<forall>e \<in> set es. \<not> triggerClick e"
    and "\<forall>e \<in> set es. \<forall>now orbit. e = AnimationFrame now orbit \<longrightarrow> stays now T"
  shows "decisive T w (frameCallbacks (run es x))"
  using assms
proof (induction es arbitrary: x)
  case Nil
  then show ?case by simp
next
  case (Cons e es)
  have "decisive T w (frameCallbacks (step e x))"
    using step_decisive [OF Cons.prems(1,2), of e] Cons.prems(3,4) by simp
  then show ?case
    using Cons.IH [of "step e x"] Cons.prems(2,3,4) by simp
qed

section \<open>The segments arrive\<close>

lemma segmentAnimate_complete:
  assumes "startTime + 1000 \<le> now"
  shows "segmentAnimate seg start tgt startTime now y =
           y\<lparr>bridge := map_option
               (\<lambda>b. setSegmentPosition seg (tweenPosition start tgt 1 (segmentPosition seg b)) b)
               (bridge y)\<rparr>"
  using assms progressOf_complete [of 1000 "now - startTime"]
  by (simp add: app_defs Let_def)

lemma leftMove_complete:
  assumes "now + 1000 \<le> tt" and "bridge y = Some b'"
  shows "runCallback tt orbit (leftMove b now) y =
           y\<lparr>bridge := Some (b'\<lparr>left := Vector3 (vx (left b')) (vy (left b')) (vz (left b) + 0.3)\<rparr>)\<rparr>"
  using assms
  by (simp add: leftMove_def segmentAnimate_complete tweenPosition_def segmentPosition_def
      setSegmentPosition_def)

lemma rightMove_complete:
  assumes "now + 1000 \<le> tt" and "bridge y = Some b'"
  shows "runCallback tt orbit (rightMove b now) y =
           y\<lparr>bridge := Some (b'\<lparr>right := Vector3 (vx (right b')) (vy (right b')) (vz (right b) + 0.3)\<rparr>)\<rparr>"
  using assms
  by (simp add: rightMove_def segmentAnimate_complete tweenPosition_def segmentPosition_def
      setSegmentPosition_def)

lemma stays_moves:
  "tt < now + 1000 \<Longrightarrow> stays tt (leftMove b now)"
  "tt < now + 1000 \<Longrightarrow> stays tt (rightMove b now)"
  using progressOf_running [of 1000 "tt - now"]
  by (simp_all add: leftMove_def rightMove_def)

lemma writes_moves [simp]:
  "writes (leftMove b now) w = (w = TheSegment LeftSegment)"
  "writes (rightMove b now) w = (w = TheSegment RightSegment)"
  by (simp_all add: leftMove_def rightMove_def)

lemma writes_reunionWalks: "cb \<in> set (reunionWalks s now) \<Longrightarrow> \<not> writes cb (TheSegment seg)"
  by (auto simp: reunionWalks_def split: option.splits)

lemma segment_kept:
  assumes "\<not> writes h (TheSegment seg)"
  shows "map_option (segmentPosition seg) (bridge (runCallback now orbit h y)) =
         map_option (segmentPosition seg) (bridge y)"
  using assms
  by (cases h; cases seg)
     (auto simp: app_defs Let_def segmentPosition_def setSegmentPosition_def map_option_case
        split: option.splits completion.splits segment.splits)

lemma segment_goal_kept:
  assumes "\<not> writes h (TheSegment seg)"
    and "\<forall>b'. bridge y = Some b' \<longrightarrow> vz (segmentPosition seg b') = g"
  shows "\<forall>b'. bridge (runCallback now orbit h y) = Some b' \<longrightarrow> vz (segmentPosition seg b') = g"
proof (intro allI impI)
  fix b'
  assume a: "bridge (runCallback now orbit h y) = Some b'"
  have "map_option (segmentPosition seg) (bridge y) = Some (segmentPosition seg b')"
    using segment_kept [OF assms(1), of now orbit y] a by simp
  then obtain b0 where "bridge y = Some b0" "segmentPosition seg b0 = segmentPosition seg b'"
    by auto
  then show "vz (segmentPosition seg b') = g"
    using assms(2) by auto
qed

lemma segment_goal_forced:
  assumes "startTime + 1000 \<le> tt"
  shows "\<forall>b'. bridge (runCallback tt orbit
            (SegmentAnimate seg start \<lparr>target_x = None, target_y = None, target_z = Some g\<rparr> startTime) y) =
              Some b' \<longrightarrow> vz (segmentPosition seg b') = g"
  by (cases seg)
     (auto simp: segmentAnimate_complete [OF assms] segmentPosition_def setSegmentPosition_def)

lemma segment_arrives:
  assumes "decisive (SegmentAnimate seg start
             \<lparr>target_x = None, target_y = None, target_z = Some g\<rparr> startTime)
             (TheSegment seg) (frameCallbacks x)"
    and "startTime + 1000 \<le> tt"
  shows "\<forall>b'. bridge (animationFrame tt orbit x) = Some b' \<longrightarrow> vz (segmentPosition seg b') = g"
  unfolding animationFrame_def
proof (rule runCallbacks_last_write
    [where w = "TheSegment seg"
       and G = "\<lambda>y. \<forall>b'. bridge y = Some b' \<longrightarrow> vz (segmentPosition seg b') = g"
       and T = "SegmentAnimate seg start
             \<lparr>target_x = None, target_y = None, target_z = Some g\<rparr> startTime"])
  show "\<And>y. \<forall>b'. bridge (runCallback tt orbit
            (SegmentAnimate seg start \<lparr>target_x = None, target_y = None, target_z = Some g\<rparr> startTime) y) =
              Some b' \<longrightarrow> vz (segmentPosition seg b') = g"
    by (rule segment_goal_forced [OF assms(2)])
  show "\<And>h y. \<not> writes h (TheSegment seg) \<Longrightarrow>
      \<forall>b'. bridge y = Some b' \<longrightarrow> vz (segmentPosition seg b') = g \<Longrightarrow>
      \<forall>b'. bridge (runCallback tt orbit h y) = Some b' \<longrightarrow> vz (segmentPosition seg b') = g"
    by (rule segment_goal_kept)
qed (use assms(1) in simp)

text \<open>
  After a firing trigger at \<open>now\<close>, events without another trigger click and with
  frames before \<open>now + 1000\<close> only, then a frame at or after \<open>now + 1000\<close>: both
  segments are at their depth plus 0.3.
\<close>

lemma segments_arrive:
  assumes b: "bridge s = Some b" "isAligned b"
    and wt: "\<forall>cb \<in> set (frameCallbacks s). wellTargeted cb"
    and fs: "\<forall>e \<in> set fs. \<not> triggerClick e \<and> frameBefore (now + 1000) e"
    and tt: "now + 1000 \<le> tt"
  shows "bridge (run (fs @ [AnimationFrame tt orbit]) (triggerBridgeMechanism now s)) =
           Some \<lparr>left = Vector3 (vx (left b)) (vy (left b)) (vz (left b) + 0.3),
                 right = Vector3 (vx (right b)) (vy (right b)) (vz (right b) + 0.3),
                 isAligned = True\<rparr>"
proof -
  let ?s1 = "triggerBridgeMechanism now s"
  let ?x = "run fs ?s1"
  let ?y = "animationFrame tt orbit ?x"
  have s1: "?s1 = s\<lparr>frameCallbacks :=
      frameCallbacks s @ [leftMove b now, rightMove b now] @ reunionWalks s now\<rparr>"
    by (rule trigger_fires [OF b])
  have wt1: "\<forall>cb \<in> set (frameCallbacks ?s1). wellTargeted cb"
    using wt wellTargeted_fired(3) [of s now] by (auto simp: s1)
  have dl: "decisive (leftMove b now) (TheSegment LeftSegment) (frameCallbacks ?s1)"
    using decisive_last [of "rightMove b now # reunionWalks s now" "TheSegment LeftSegment"
        "leftMove b now" "frameCallbacks s"] writes_reunionWalks [of _ s now LeftSegment]
    by (auto simp: s1)
  have dr: "decisive (rightMove b now) (TheSegment RightSegment) (frameCallbacks ?s1)"
    using decisive_last [of "reunionWalks s now" "TheSegment RightSegment"
        "rightMove b now" "frameCallbacks s @ [leftMove b now]"]
      writes_reunionWalks [of _ s now RightSegment]
    by (auto simp: s1)
  have nt: "\<forall>e \<in> set fs. \<not> triggerClick e" using fs by simp
  have st: "\<forall>e \<in> set fs. \<forall>t o'. e = AnimationFrame t o' \<longrightarrow> stays t (leftMove b now)"
    "\<forall>e \<in> set fs. \<forall>t o'. e = AnimationFrame t o' \<longrightarrow> stays t (rightMove b now)"
    using fs stays_moves by fastforce+
  have xl: "decisive (leftMove b now) (TheSegment LeftSegment) (frameCallbacks ?x)"
    by (rule run_decisive [OF dl _ nt st(1)]) simp
  have xr: "decisive (rightMove b now) (TheSegment RightSegment) (frameCallbacks ?x)"
    by (rule run_decisive [OF dr _ nt st(2)]) simp
  have gl: "\<forall>b'. bridge ?y = Some b' \<longrightarrow> vz (left b') = vz (left b) + 0.3"
    using segment_arrives [OF xl [unfolded leftMove_def] tt, of orbit]
    by (simp add: segmentPosition_def)
  have gr: "\<forall>b'. bridge ?y = Some b' \<longrightarrow> vz (right b') = vz (right b) + 0.3"
    using segment_arrives [OF xr [unfolded rightMove_def] tt, of orbit]
    by (simp add: segmentPosition_def)
  have y: "?y = run (fs @ [AnimationFrame tt orbit]) ?s1"
    by (simp add: run_append)
  have "bridge ?s1 \<noteq> None" using b by (simp add: s1)
  then obtain b' where b': "bridge ?y = Some b'"
    using run_bridge_kept [of ?s1 "fs @ [AnimationFrame tt orbit]"] y by auto
  have "bridge_isAligned ?s1" using b by (simp add: s1 bridge_isAligned_def)
  then have "bridge_isAligned ?y"
    using run_isAligned_mono [of ?s1 "fs @ [AnimationFrame tt orbit]"] y by simp
  then have al: "isAligned b'" using b' by (simp add: bridge_isAligned_def)
  have "segmentFrame ?y = segmentFrame ?s1"
    using run_segmentFrame [OF wt1, of "fs @ [AnimationFrame tt orbit]"] y by simp
  then have fr: "vx (left b') = vx (left b)" "vy (left b') = vy (left b)"
    "vx (right b') = vx (right b)" "vy (right b') = vy (right b)"
    using b b' by (simp_all add: segmentFrame_def s1)
  have "b' = \<lparr>left = Vector3 (vx (left b)) (vy (left b)) (vz (left b) + 0.3),
                 right = Vector3 (vx (right b)) (vy (right b)) (vz (right b) + 0.3),
                 isAligned = True\<rparr>"
    using gl gr b' al fr
    by (cases b'; cases "left b'"; cases "right b'") simp
  then show ?thesis using b' y by simp
qed

text \<open>
  C9. The stored flag is monotone: it is false when the page starts, no event sets it
  back to false, and the only event that changes it is the emotional-view button, which
  sets it. So after one press of that button, whatever follows and wherever the camera
  is, the flag is set and a click on the trigger fires. Firing: the click starts the two
  segment tweens; each of them, run at a clock reading 1 second or more after the click,
  puts its segment at the depth it had at the click plus 0.3 and leaves the rest of the
  bridge alone; and when no further trigger click comes before it, the first frame
  1 second or more after the click leaves both segments at their depth plus 0.3.
\<close>

theorem isAligned_monotone:
  "\<not> bridge_isAligned (initApp t0) \<and>
   (bridge_isAligned s \<longrightarrow> bridge_isAligned (step e s)) \<and>
   (\<not> bridge_isAligned s \<and> bridge_isAligned (step e s) \<longrightarrow> (\<exists>t. e = ClickEmotionalView t)) \<and>
   bridge_isAligned (run (es @ ClickEmotionalView t # es') (initApp t0)) \<and>
   (\<exists>b. bridge (run (es @ ClickEmotionalView t # es') (initApp t0)) = Some b \<and>
        prefix
          (frameCallbacks (run (es @ ClickEmotionalView t # es') (initApp t0)) @
            [leftMove b now, rightMove b now])
          (frameCallbacks
            (step (ClickTriggerBridge now) (run (es @ ClickEmotionalView t # es') (initApp t0)))) \<and>
        (bridge y = Some b' \<and> now + 1000 \<le> tt \<longrightarrow>
           runCallback tt orbit (leftMove b now) y =
             y\<lparr>bridge := Some (b'\<lparr>left :=
                  Vector3 (vx (left b')) (vy (left b')) (vz (left b) + 0.3)\<rparr>)\<rparr> \<and>
           runCallback tt orbit (rightMove b now) y =
             y\<lparr>bridge := Some (b'\<lparr>right :=
                  Vector3 (vx (right b')) (vy (right b')) (vz (right b) + 0.3)\<rparr>)\<rparr>) \<and>
        ((\<forall>e \<in> set fs. \<not> triggerClick e \<and> frameBefore (now + 1000) e) \<and> now + 1000 \<le> tt \<longrightarrow>
           bridge (run (fs @ [AnimationFrame tt orbit])
                    (step (ClickTriggerBridge now)
                      (run (es @ ClickEmotionalView t # es') (initApp t0)))) =
             Some \<lparr>left = Vector3 (vx (left b)) (vy (left b)) (vz (left b) + 0.3),
                   right = Vector3 (vx (right b)) (vy (right b)) (vz (right b) + 0.3),
                   isAligned = True\<rparr>))"
proof -
  let ?s = "run (es @ ClickEmotionalView t # es') (initApp t0)"
  have i: "\<not> bridge_isAligned (initApp t0)"
    by (simp add: initApp_def newApp_def app_defs Let_def)
  have w: "\<not> bridge_isAligned s \<and> bridge_isAligned (step e s) \<longrightarrow> (\<exists>t. e = ClickEmotionalView t)"
    using step_isAligned_other [of e s] by blast
  have "?s = run es' (step (ClickEmotionalView t) (run es (initApp t0)))"
    by (simp add: run_append)
  then have a: "bridge_isAligned ?s"
    using run_isAligned_mono [OF emotional_sets_aligned [OF run_bridge_present]] by simp
  then obtain b where b: "bridge ?s = Some b" "isAligned b"
    by (auto simp: bridge_isAligned_def split: option.splits)
  have p: "prefix (frameCallbacks ?s @ [leftMove b now, rightMove b now])
     (frameCallbacks (step (ClickTriggerBridge now) ?s))"
    by (simp add: trigger_fires [OF b] prefix_def)
  have c: "bridge y = Some b' \<and> now + 1000 \<le> tt \<longrightarrow>
           runCallback tt orbit (leftMove b now) y =
             y\<lparr>bridge := Some (b'\<lparr>left :=
                  Vector3 (vx (left b')) (vy (left b')) (vz (left b) + 0.3)\<rparr>)\<rparr> \<and>
           runCallback tt orbit (rightMove b now) y =
             y\<lparr>bridge := Some (b'\<lparr>right :=
                  Vector3 (vx (right b')) (vy (right b')) (vz (right b) + 0.3)\<rparr>)\<rparr>"
    using leftMove_complete [of now tt y b' orbit b] rightMove_complete [of now tt y b' orbit b]
    by simp
  have r: "(\<forall>e \<in> set fs. \<not> triggerClick e \<and> frameBefore (now + 1000) e) \<and> now + 1000 \<le> tt \<longrightarrow>
           bridge (run (fs @ [AnimationFrame tt orbit]) (step (ClickTriggerBridge now) ?s)) =
             Some \<lparr>left = Vector3 (vx (left b)) (vy (left b)) (vz (left b) + 0.3),
                   right = Vector3 (vx (right b)) (vy (right b)) (vz (right b) + 0.3),
                   isAligned = True\<rparr>"
    using segments_arrive [OF b run_wellTargeted, of fs now tt orbit] by simp
  show ?thesis
    using i w a b(1) p c r step_isAligned_mono [of s e] by blast
qed

theorem isAligned_monotone_witness:
  "\<not> bridge_isAligned (initApp 0) \<and>
   bridge_isAligned (step (ClickEmotionalView 1) (initApp 0)) \<and>
   bridge_isAligned (step (AnimationFrame 2 None) (step (ClickEmotionalView 1) (initApp 0))) \<and>
   \<not> isNearEmotionalView (Some 3)
      (run ([] @ ClickEmotionalView 1 # [ControlsMoveCamera (Vector3 0 5 24) (Vector3 0 0 0)]) (initApp 0)) \<and>
   bridge (run ([] @ ClickEmotionalView 1 # [ControlsMoveCamera (Vector3 0 5 24) (Vector3 0 0 0)]) (initApp 0)) =
     Some \<lparr>left = Vector3 (- 6) 0.5 0, right = Vector3 6 0.5 0, isAligned = True\<rparr> \<and>
   bridge (run ([AnimationFrame 500 None, ClickMotherView 600] @ [AnimationFrame 1003 None])
            (step (ClickTriggerBridge 3)
              (run ([] @ ClickEmotionalView 1 # [ControlsMoveCamera (Vector3 0 5 24) (Vector3 0 0 0)])
                 (initApp 0)))) =
     Some \<lparr>left = Vector3 (- 6) 0.5 0.3, right = Vector3 6 0.5 0.3, isAligned = True\<rparr>"
proof -
  let ?s = "run ([] @ ClickEmotionalView 1 # [ControlsMoveCamera (Vector3 0 5 24) (Vector3 0 0 0)]) (initApp 0)"
  have a: "bridge_isAligned (step (ClickEmotionalView 1) (initApp 0))"
    by (simp add: initApp_def newApp_def app_defs Let_def)
  have n: "\<not> isNearEmotionalView (Some 3) ?s"
    using real_sqrt_abs2 [of 4]
    by (simp add: isNearEmotionalView_def distanceTo_def preset_emotional_def lookAt_def)
  have b: "bridge ?s = Some \<lparr>left = Vector3 (- 6) 0.5 0, right = Vector3 6 0.5 0, isAligned = True\<rparr>"
    by (simp add: initApp_def newApp_def app_defs Let_def)
  have f: "\<forall>e \<in> set [AnimationFrame 500 None, ClickMotherView 600].
             \<not> triggerClick e \<and> frameBefore (3 + 1000) e"
    by simp
  show ?thesis
    using a n b f
      isAligned_monotone [of 0 "step (ClickEmotionalView 1) (initApp 0)" "AnimationFrame 2 None"
        "[]" 1 "[ControlsMoveCamera (Vector3 0 5 24) (Vector3 0 0 0)]" 3 _ _ 1003 None
        "[AnimationFrame 500 None, ClickMotherView 600]"]
    by auto
qed

section \<open>Camera transitions run to completion\<close>

lemma cameraTweens_mem: "cb \<in> set cbs \<Longrightarrow> isCameraAnimate cb \<Longrightarrow> 1 \<le> cameraTweens cbs"
  by (induction cbs) auto

lemma runCallback_currentPreset: "currentPreset (runCallback now orbit cb s) = currentPreset s"
  by (cases cb) (auto simp: app_defs Let_def split: option.splits completion.splits)

lemma runCallbacks_currentPreset: "currentPreset (runCallbacks now orbit cbs s) = currentPreset s"
  by (induction cbs arbitrary: s) (simp_all add: runCallback_currentPreset)

lemma runCallback_isAnimating:
  "\<not> isCameraAnimate h \<Longrightarrow> isAnimating (runCallback now orbit h y) = isAnimating y"
  by (cases h) (auto simp: app_defs Let_def split: option.splits completion.splits)

lemma cameraAnimate_running:
  assumes "now < startTime + 2000"
  shows "isAnimating (cameraAnimate sp st tp tq startTime now y) = isAnimating y"
  using assms progressOf_running [of 2000 "now - startTime"]
  by (simp add: app_defs Let_def)

lemma cameraAnimate_complete:
  assumes "startTime + 2000 \<le> now"
  shows "cameraAnimate sp st tp tq startTime now y =
           y\<lparr>camera_position := lerpVectors sp tp 1,
             camera_direction := directionTowards (lerpVectors sp tp 1) (lerpVectors st tq 1),
             camera_lookAt := lerpVectors st tq 1, isAnimating := False\<rparr>"
  using assms progressOf_complete [of 2000 "now - startTime"]
  by (simp add: app_defs Let_def)

lemma stays_camera: "now < t0 + 2000 \<Longrightarrow> stays now (CameraAnimate sp st tp tq t0)"
  using progressOf_running [of 2000 "now - t0"] by simp

lemma runCallback_inFlight:
  assumes "inFlight (CameraAnimate sp st tp tq t0) (h # cbs) x" and "now < t0 + 2000"
  shows "inFlight (CameraAnimate sp st tp tq t0) cbs (runCallback now orbit h x)"
proof -
  let ?cb = "CameraAnimate sp st tp tq t0"
  have an: "isAnimating x"
    and cnt: "cameraTweens (h # cbs) + cameraTweens (frameCallbacks x) = 1"
    and dec: "decisive ?cb TheCamera (frameCallbacks x @ h # cbs)"
    using assms(1) by (simp_all add: inFlight_def)
  have d': "decisive ?cb TheCamera (frameCallbacks (runCallback now orbit h x) @ cbs)"
    by (rule runCallback_decisive [OF dec stays_camera [OF assms(2)]])
  have only: "isCameraAnimate h \<Longrightarrow> h = ?cb"
  proof (rule ccontr)
    assume c: "isCameraAnimate h" and ne: "h \<noteq> ?cb"
    have "?cb \<in> set cbs \<or> ?cb \<in> set (frameCallbacks x)"
      using decisive_mem [OF dec] ne by auto
    then have "1 \<le> cameraTweens cbs \<or> 1 \<le> cameraTweens (frameCallbacks x)"
      using cameraTweens_mem [of ?cb] by auto
    then show False using cnt c by auto
  qed
  show ?thesis
  proof (cases "isCameraAnimate h")
    case True
    then have h: "h = ?cb" by (rule only)
    show ?thesis
      using an cnt d' cameraAnimate_running [OF assms(2), of sp st tp tq x]
        stays_camera [OF assms(2), of sp st tp tq]
      by (simp add: inFlight_def h runCallback_queue [of now orbit ?cb x, simplified])
  next
    case False
    then show ?thesis
      using an cnt d' runCallback_isAnimating [OF False, of now orbit x]
      by (cases "stays now h") (simp_all add: inFlight_def runCallback_queue)
  qed
qed

lemma runCallbacks_inFlight:
  assumes "now < t0 + 2000"
  shows "inFlight (CameraAnimate sp st tp tq t0) cbs x \<Longrightarrow>
         inFlight (CameraAnimate sp st tp tq t0) [] (runCallbacks now orbit cbs x)"
proof (induction cbs arbitrary: x)
  case Nil
  then show ?case by simp
next
  case (Cons h cbs)
  show ?case
    using Cons.IH [OF runCallback_inFlight [OF Cons.prems assms]] by simp
qed

lemma inFlight_fired:
  "inFlight cb [] x \<Longrightarrow>
   inFlight cb []
     (x\<lparr>frameCallbacks := frameCallbacks x @ [leftMove b now, rightMove b now] @ reunionWalks x now\<rparr>)"
  by (auto simp: inFlight_def leftMove_def rightMove_def reunionWalks_def
      intro!: decisive_append_right split: option.splits)

lemma step_inFlight:
  assumes "inFlight (CameraAnimate sp st tp tq t0) [] x" and "frameBefore (t0 + 2000) e"
  shows "inFlight (CameraAnimate sp st tp tq t0) [] (step e x) \<and>
         currentPreset (step e x) = currentPreset x"
proof (cases e)
  case (AnimationFrame now orbit)
  have "inFlight (CameraAnimate sp st tp tq t0) (frameCallbacks x) (x\<lparr>frameCallbacks := []\<rparr>)"
    using assms(1) by (simp add: inFlight_def)
  then show ?thesis
    using runCallbacks_inFlight [of now t0 sp st tp tq "frameCallbacks x" "x\<lparr>frameCallbacks := []\<rparr>" orbit]
      assms(2)
    by (simp add: AnimationFrame animationFrame_def runCallbacks_currentPreset)
next
  case (ClickTriggerBridge now)
  show ?thesis
    using assms(1) trigger_cases [of now x] inFlight_fired [of _ x _ now]
    by (auto simp: ClickTriggerBridge console_log_def inFlight_def)
qed (use assms(1) in \<open>auto simp: inFlight_def app_defs Let_def split: option.splits\<close>)

lemma run_inFlight:
  assumes "inFlight (CameraAnimate sp st tp tq t0) [] x"
    and "\<forall>e \<in> set es. frameBefore (t0 + 2000) e"
  shows "inFlight (CameraAnimate sp st tp tq t0) [] (run es x) \<and>
         currentPreset (run es x) = currentPreset x"
  using assms
proof (induction es arbitrary: x)
  case Nil
  then show ?case by simp
next
  case (Cons e es)
  have s: "inFlight (CameraAnimate sp st tp tq t0) [] (step e x) \<and>
         currentPreset (step e x) = currentPreset x"
    using step_inFlight [OF Cons.prems(1), of e] Cons.prems(2) by simp
  show ?case
    using Cons.IH [of "step e x"] s Cons.prems(2) by simp
qed

lemma camera_kept:
  assumes "\<not> writes h TheCamera"
  shows "camera_position (runCallback now orbit h y) = camera_position y"
    and "camera_lookAt (runCallback now orbit h y) = camera_lookAt y"
    and "camera_direction (runCallback now orbit h y) = camera_direction y"
    and "isAnimating (runCallback now orbit h y) = isAnimating y"
  using assms
  by (cases h; auto simp: app_defs Let_def split: option.splits completion.splits)+

text \<open>
  A transition started with no camera tween queued: whatever events come before the
  first frame at or after \<open>t0 + 2000\<close>, that frame leaves the camera where the last
  interpolation step puts it.
\<close>

lemma transition_completes:
  assumes "presets presetName = Some preset"
    and "\<not> isAnimating s" and "cameraTweens (frameCallbacks s) = 0"
    and "\<forall>e \<in> set es. frameBefore (t0 + 2000) e"
    and "t0 + 2000 \<le> now"
  shows "camera_position (run (es @ [AnimationFrame now orbit]) (setPresetView presetName t0 s)) =
           lerpVectors (camera_position s) (preset_position preset) 1"
    and "camera_lookAt (run (es @ [AnimationFrame now orbit]) (setPresetView presetName t0 s)) =
           lerpVectors (getCameraLookAt s) (preset_target preset) 1"
    and "camera_direction (run (es @ [AnimationFrame now orbit]) (setPresetView presetName t0 s)) =
           directionTowards (lerpVectors (camera_position s) (preset_position preset) 1)
             (lerpVectors (getCameraLookAt s) (preset_target preset) 1)"
    and "\<not> isAnimating (run (es @ [AnimationFrame now orbit]) (setPresetView presetName t0 s))"
    and "currentPreset (run (es @ [AnimationFrame now orbit]) (setPresetView presetName t0 s)) =
           Some presetName"
proof -
  let ?P = "lerpVectors (camera_position s) (preset_position preset) 1"
  let ?Q = "lerpVectors (getCameraLookAt s) (preset_target preset) 1"
  let ?cb = "CameraAnimate (camera_position s) (getCameraLookAt s)
               (preset_position preset) (preset_target preset) t0"
  let ?s1 = "setPresetView presetName t0 s"
  let ?x = "run es ?s1"
  let ?G = "\<lambda>y. camera_position y = ?P \<and> camera_lookAt y = ?Q \<and>
                camera_direction y = directionTowards ?P ?Q \<and> \<not> isAnimating y"
  have q1: "frameCallbacks ?s1 = frameCallbacks s @ [?cb]"
    and a1: "isAnimating ?s1" and p1: "currentPreset ?s1 = Some presetName"
    using assms(1,2) by (simp_all add: app_defs getCameraLookAt_def Let_def)
  have "decisive ?cb TheCamera (frameCallbacks ?s1)"
    using decisive_last [of "[]" TheCamera ?cb "frameCallbacks s"] by (simp add: q1)
  then have s1: "inFlight ?cb [] ?s1"
    using a1 assms(3) by (simp add: inFlight_def q1)
  have x: "inFlight ?cb [] ?x" "currentPreset ?x = Some presetName"
    using run_inFlight [OF s1 assms(4)] p1 by simp_all
  have "?G (runCallbacks now orbit (frameCallbacks ?x) (?x\<lparr>frameCallbacks := []\<rparr>))"
  proof (rule runCallbacks_last_write [where w = TheCamera and G = ?G and T = ?cb])
    show "\<And>y. ?G (runCallback now orbit ?cb y)"
      by (simp add: cameraAnimate_complete [OF assms(5)])
    show "\<And>h y. \<not> writes h TheCamera \<Longrightarrow> ?G y \<Longrightarrow> ?G (runCallback now orbit h y)"
      by (simp add: camera_kept)
    show "decisive ?cb TheCamera (frameCallbacks ?x) \<or>
        ?G (?x\<lparr>frameCallbacks := []\<rparr>) \<and>
        (\<forall>cb \<in> set (frameCallbacks ?x). writes cb TheCamera \<longrightarrow> cb = ?cb)"
      using x(1) by (simp add: inFlight_def)
  qed
  then have g: "?G (animationFrame now orbit ?x)"
    by (simp add: animationFrame_def)
  have c: "currentPreset (animationFrame now orbit ?x) = Some presetName"
    using x(2) by (simp add: animationFrame_def runCallbacks_currentPreset)
  show "camera_position (run (es @ [AnimationFrame now orbit]) ?s1) = ?P"
    and "camera_lookAt (run (es @ [AnimationFrame now orbit]) ?s1) = ?Q"
    and "camera_direction (run (es @ [AnimationFrame now orbit]) ?s1) = directionTowards ?P ?Q"
    and "\<not> isAnimating (run (es @ [AnimationFrame now orbit]) ?s1)"
    and "currentPreset (run (es @ [AnimationFrame now orbit]) ?s1) = Some presetName"
    using g c by (simp_all add: run_append)
qed

lemma roundDouble_small [simp]:
  "roundDouble 15 = 15" "roundDouble (- 15) = - 15" "roundDouble 8 = 8" "roundDouble 12 = 12"
  "roundDouble 30 = 30" "roundDouble (- 2) = - 2" "roundDouble 6 = 6" "roundDouble 10 = 10"
  using roundDouble_at [of 49 15] roundDouble_at [of 49 "- 15"] roundDouble_at [of 49 8]
    roundDouble_at [of 49 12] roundDouble_at [of 48 30] roundDouble_at [of 51 "- 2"]
    roundDouble_at [of 50 6] roundDouble_at [of 49 10]
  by (simp_all add: roundHalfEven_def Let_def)


lemma after_first_transition:
  "\<not> isAnimating (animationFrame 2000 None (initApp 0))"
  "cameraTweens (frameCallbacks (animationFrame 2000 None (initApp 0))) = 0"
  "camera_position (animationFrame 2000 None (initApp 0)) = Vector3 (- 15) 8 12"
  by (simp_all add: initApp_def newApp_def app_defs Let_def animationFrame_def controlsUpdate_def
      progressOf_def lerpVectors_def lerp_def preset_mother_def)


lemma eleven_tenths:
  "lerp (2476979795053773 / 2251799813685248) (- 15) 1 = - (8444249301319681 / 562949953421312)"
proof -
  have 1: "roundDouble (- 15 - 2476979795053773 / 2251799813685248) =
           - (2265873562520781 / 140737488355328)"
    using roundDouble_at [of 48 "- 15 - 2476979795053773 / 2251799813685248"]
    by (simp add: roundHalfEven_def Let_def)
  have 2: "roundDouble (- (2265873562520781 / 140737488355328)) =
           - (2265873562520781 / 140737488355328)"
    using roundDouble_at [of 48 "- (2265873562520781 / 140737488355328)"]
    by (simp add: roundHalfEven_def Let_def)
  have 3: "roundDouble (2476979795053773 / 2251799813685248 + - (2265873562520781 / 140737488355328)) =
           - (8444249301319681 / 562949953421312)"
    using roundDouble_at [of 49 "2476979795053773 / 2251799813685248 + - (2265873562520781 / 140737488355328)"]
    by (simp add: roundHalfEven_def Let_def)
  show ?thesis
    by (simp only: lerp_def 1 mult.right_neutral 2 3)
qed


text \<open>
  The transition the constructor starts is queued before the render loop, so in its
  completing frame the controls update runs after it: with orbit controls the camera is
  then where they put it.
\<close>

lemma first_transition_then_controls:
  "camera_position (animationFrame 2000 (Some (p, q)) (initApp 0)) = p \<and>
   camera_lookAt (animationFrame 2000 (Some (p, q)) (initApp 0)) = q \<and>
   \<not> isAnimating (animationFrame 2000 (Some (p, q)) (initApp 0))"
  by (simp add: initApp_def newApp_def app_defs Let_def animationFrame_def controlsUpdate_def
      progressOf_def)

section \<open>The reunion\<close>

lemma characterAnimate_complete:
  assumes "t0 + 2000 \<le> now"
  shows "meshPosition (characterAnimate k start tgt oc t0 now y) =
           (meshPosition y)(k := tweenPosition start tgt 1 (meshPosition y k))"
  using assms progressOf_complete [of 2000 "now - t0"]
  by (simp add: app_defs Let_def split: option.splits completion.splits)

lemma mesh_kept:
  "\<not> writes h (TheMesh k) \<Longrightarrow> meshPosition (runCallback now orbit h y) k = meshPosition y k"
  by (cases h) (auto simp: app_defs Let_def split: option.splits completion.splits)

lemma mesh_arrives:
  assumes "decisive (CharacterAnimate k start
             \<lparr>target_x = Some g, target_y = None, target_z = None\<rparr> oc t0)
             (TheMesh k) (frameCallbacks x)"
    and "t0 + 2000 \<le> tt"
  shows "vx (meshPosition (animationFrame tt orbit x) k) = g"
  unfolding animationFrame_def
proof (rule runCallbacks_last_write
    [where w = "TheMesh k" and G = "\<lambda>y. vx (meshPosition y k) = g"
       and T = "CharacterAnimate k start
             \<lparr>target_x = Some g, target_y = None, target_z = None\<rparr> oc t0"])
  show "\<And>y. vx (meshPosition (runCallback tt orbit
          (CharacterAnimate k start \<lparr>target_x = Some g, target_y = None, target_z = None\<rparr> oc t0) y) k) = g"
    by (simp add: characterAnimate_complete [OF assms(2)])
  show "\<And>h y. \<not> writes h (TheMesh k) \<Longrightarrow> vx (meshPosition y k) = g \<Longrightarrow>
      vx (meshPosition (runCallback tt orbit h y) k) = g"
    by (simp add: mesh_kept)
qed (use assms(1) in simp)

lemma stays_walks:
  "tt < t0 + 2000 \<Longrightarrow> stays tt (motherWalk m t0)"
  "tt < t0 + 2000 \<Longrightarrow> stays tt (childWalk c t0)"
  using progressOf_running [of 2000 "tt - t0"]
  by (simp_all add: motherWalk_def childWalk_def)

lemma reunionWalks_platform:
  assumes "mother s = Some m" and "child s = Some c"
    and "meshPosition s m = Vector3 (- 12) 1 0" and "meshPosition s c = Vector3 12 1 0"
  shows "reunionWalks s now = [motherWalk m now, childWalk c now]"
  using assms by (simp add: reunionWalks_def motherWalk_def childWalk_def)

text \<open>
  After a firing trigger at \<open>t0\<close> with both characters at their platform positions, and
  events that neither press the trigger nor bring a character and have their frames
  before \<open>t0 + 2000\<close>: both walks are still pending, and the next frame at or after
  \<open>t0 + 2000\<close> puts the characters at the ends of their walks.
\<close>

lemma characters_meet:
  assumes wt: "\<forall>cb \<in> set (frameCallbacks s). wellTargeted cb"
    and al: "bridge_isAligned s"
    and mc: "mother s = Some m" "child s = Some c"
    and pos: "meshPosition s m = Vector3 (- 12) 1 0" "meshPosition s c = Vector3 12 1 0"
    and es: "\<forall>e \<in> set es. \<not> triggerClick e \<and> \<not> characterLoaded e \<and> frameBefore (t0 + 2000) e"
    and tt: "t0 + 2000 \<le> tt"
  shows "motherWalk m t0 \<in> set (frameCallbacks (run es (triggerBridgeMechanism t0 s)))"
    and "childWalk c t0 \<in> set (frameCallbacks (run es (triggerBridgeMechanism t0 s)))"
    and "mother (run (es @ [AnimationFrame tt orbit]) (triggerBridgeMechanism t0 s)) = Some m"
    and "child (run (es @ [AnimationFrame tt orbit]) (triggerBridgeMechanism t0 s)) = Some c"
    and "meshPosition (run (es @ [AnimationFrame tt orbit]) (triggerBridgeMechanism t0 s)) m =
           Vector3 (- 2) 1 0"
    and "meshPosition (run (es @ [AnimationFrame tt orbit]) (triggerBridgeMechanism t0 s)) c =
           Vector3 2 1 0"
proof -
  let ?s1 = "triggerBridgeMechanism t0 s"
  let ?x = "run es ?s1"
  let ?y = "run (es @ [AnimationFrame tt orbit]) ?s1"
  obtain b where b: "bridge s = Some b" "isAligned b"
    using al by (auto simp: bridge_isAligned_def split: option.splits)
  have ne: "m \<noteq> c" using pos by auto
  have s1: "?s1 = s\<lparr>frameCallbacks := frameCallbacks s @
      [leftMove b t0, rightMove b t0] @ [motherWalk m t0, childWalk c t0]\<rparr>"
    using trigger_fires [OF b, of t0] reunionWalks_platform [OF mc pos, of t0] by simp
  have wt1: "\<forall>cb \<in> set (frameCallbacks ?s1). wellTargeted cb"
    using wt by (auto simp: s1 motherWalk_def childWalk_def)
  have dm: "decisive (motherWalk m t0) (TheMesh m) (frameCallbacks ?s1)"
    using decisive_last [of "[childWalk c t0]" "TheMesh m" "motherWalk m t0"
        "frameCallbacks s @ [leftMove b t0, rightMove b t0]"] ne
    by (simp add: s1 childWalk_def)
  have dc: "decisive (childWalk c t0) (TheMesh c) (frameCallbacks ?s1)"
    using decisive_last [of "[]" "TheMesh c" "childWalk c t0"
        "frameCallbacks s @ [leftMove b t0, rightMove b t0, motherWalk m t0]"]
    by (simp add: s1)
  have nt: "\<forall>e \<in> set es. \<not> triggerClick e" using es by simp
  have st: "\<forall>e \<in> set es. \<forall>t o'. e = AnimationFrame t o' \<longrightarrow> stays t (motherWalk m t0)"
    "\<forall>e \<in> set es. \<forall>t o'. e = AnimationFrame t o' \<longrightarrow> stays t (childWalk c t0)"
    using es stays_walks by fastforce+
  have xm: "decisive (motherWalk m t0) (TheMesh m) (frameCallbacks ?x)"
    by (rule run_decisive [OF dm _ nt st(1)]) simp
  have xc: "decisive (childWalk c t0) (TheMesh c) (frameCallbacks ?x)"
    by (rule run_decisive [OF dc _ nt st(2)]) simp
  show "motherWalk m t0 \<in> set (frameCallbacks ?x)"
    by (rule decisive_mem [OF xm])
  show "childWalk c t0 \<in> set (frameCallbacks ?x)"
    by (rule decisive_mem [OF xc])
  have y: "?y = animationFrame tt orbit ?x"
    by (simp add: run_append)
  have vm: "vx (meshPosition ?y m) = - 2"
    unfolding y by (rule mesh_arrives [OF xm [unfolded motherWalk_def] tt])
  have vc: "vx (meshPosition ?y c) = 2"
    unfolding y by (rule mesh_arrives [OF xc [unfolded childWalk_def] tt])
  have "\<forall>e \<in> set (es @ [AnimationFrame tt orbit]). \<not> characterLoaded e"
    using es by simp
  then have "untouched ?y = untouched ?s1"
    by (rule run_untouched [OF wt1])
  then have u: "mother ?y = Some m" "child ?y = Some c"
    "vy (meshPosition ?y m) = 1" "vz (meshPosition ?y m) = 0"
    "vy (meshPosition ?y c) = 1" "vz (meshPosition ?y c) = 0"
    using mc pos by (simp_all add: untouched_def s1 fun_eq_iff)
  show "mother ?y = Some m" and "child ?y = Some c"
    by (rule u)+
  show "meshPosition ?y m = Vector3 (- 2) 1 0"
    using vm u(3,4) by (cases "meshPosition ?y m") simp
  show "meshPosition ?y c = Vector3 2 1 0"
    using vc u(5,6) by (cases "meshPosition ?y c") simp
qed


lemma loaded_and_aligned:
  "bridge_isAligned (run [MotherLoaded 7, ChildLoaded 8, ClickEmotionalView 1] (initApp 0))"
  "mother (run [MotherLoaded 7, ChildLoaded 8, ClickEmotionalView 1] (initApp 0)) = Some 7"
  "child (run [MotherLoaded 7, ChildLoaded 8, ClickEmotionalView 1] (initApp 0)) = Some 8"
  "meshPosition (run [MotherLoaded 7, ChildLoaded 8, ClickEmotionalView 1] (initApp 0)) 7 =
     Vector3 (- 12) 1 0"
  "meshPosition (run [MotherLoaded 7, ChildLoaded 8, ClickEmotionalView 1] (initApp 0)) 8 =
     Vector3 12 1 0"
  by (simp_all add: initApp_def newApp_def app_defs Let_def)


lemma runCallback_meshPosition:
  "meshPosition (runCallback now orbit (CharacterAnimate k start tgt oc t0) y) =
     (meshPosition y)(k := tweenPosition start tgt (easeProgressOf (progressOf (now - t0) 2000))
                             (meshPosition y k))"
  "meshPosition (runCallback now orbit (CameraAnimate sp st tp tq t0) y) = meshPosition y"
  "meshPosition (runCallback now orbit (SegmentAnimate seg start tgt t0) y) = meshPosition y"
  "meshPosition (runCallback now orbit AppAnimate y) = meshPosition y"
  by (simp_all add: app_defs Let_def split: option.splits completion.splits)

lemma runCallback_characters:
  "mother (runCallback now orbit h y) = mother y" "child (runCallback now orbit h y) = child y"
  by (cases h; simp add: app_defs Let_def split: option.splits completion.splits)+

lemma runCallbacks_characters:
  "mother (runCallbacks now orbit cbs y) = mother y" "child (runCallbacks now orbit cbs y) = child y"
  by (induction cbs arbitrary: y; simp add: runCallback_characters del: runCallback.simps)+

lemma started_queue:
  "frameCallbacks (run [MotherLoaded 7, ChildLoaded 8, ClickEmotionalView 1] (initApp 0)) =
     [CameraAnimate (Vector3 0 0 0) (Vector3 0 0 (- 10)) (Vector3 (- 15) 8 12) (Vector3 (- 12) 1 0) 0,
      AppAnimate]"
  by (simp add: initApp_def newApp_def app_defs Let_def getCameraLookAt_def add_def
      multiplyScalar_def preset_mother_def)

lemma half_way [simp]: "easeProgressOf (1 / 2) = 1 / 2"
  by (simp add: easeProgressOf_def)


end
